theory Spec2Isabelle
  imports Complex_Main
begin

section \<open>Credify capture orchestration: a shallow embedding\<close>

text \<open>
  The browser extension is event driven: every execution context (content script,
  service worker, offscreen document, popup) is a single-threaded event loop.  Each
  handler of the source is embedded as a function from the state it reads, and the
  answers the environment gives it (clock readings, random draws, HTTP responses), to
  the state it leaves and the effects it issues.
\<close>

subsection \<open>JavaScript values used by the handlers\<close>

text \<open>
  An optional string property is \<open>string option\<close>; \<open>None\<close> stands for
  \<open>undefined\<close> or \<open>null\<close>.  JavaScript's \<open>a || b\<close> on such values takes
  \<open>a\<close> unless it is falsy (absent or the empty string).
\<close>

definition truthy :: "string option \<Rightarrow> bool" where
  "truthy v = (case v of None \<Rightarrow> False | Some s \<Rightarrow> s \<noteq> [])"

definition or_else :: "string option \<Rightarrow> string option \<Rightarrow> string option" where
  "or_else a b = (if truthy a then a else b)"

definition or_default :: "string option \<Rightarrow> string \<Rightarrow> string" where
  "or_default a d = (case a of None \<Rightarrow> d | Some s \<Rightarrow> (if s = [] then d else s))"

text \<open>
  \<open>String.prototype.trim\<close> and \<open>toLowerCase\<close>.  A \<open>char\<close> stands for the
  code point of the same number, U+0000 to U+00FF.  In that range the white space that
  \<open>trim\<close> removes is tab, line feed, vertical tab, form feed, carriage return, blank
  and the no-break space U+00A0; the capitals that \<open>toLowerCase\<close> folds are A to Z
  and U+00C0 to U+00DE without the multiplication sign U+00D7, each to the code point 32
  above it.
\<close>

definition is_space :: "char \<Rightarrow> bool" where
  "is_space c = ((of_char c :: nat) \<in> {32, 9, 10, 11, 12, 13, 160})"

definition trim :: "string \<Rightarrow> string" where
  "trim s = rev (dropWhile is_space (rev (dropWhile is_space s)))"

definition lower_char :: "char \<Rightarrow> char" where
  "lower_char c =
     (let n = (of_char c :: nat)
      in if (65 \<le> n \<and> n \<le> 90) \<or> (192 \<le> n \<and> n \<le> 222 \<and> n \<noteq> 215)
         then char_of (n + 32) else c)"

definition toLowerCase :: "string \<Rightarrow> string" where
  "toLowerCase s = map lower_char s"

subsection \<open>The dedup cache (\<open>isNewContent\<close>)\<close>

text \<open>
  \<open>recentTexts\<close> is a JavaScript \<open>Set\<close>, which iterates in insertion order: it is
  a list without duplicates, oldest first.  \<open>add\<close> of a member changes nothing,
  \<open>values().next().value\<close> is the oldest member, \<open>delete\<close> removes a member.
\<close>

definition MAX_CACHE :: nat where
  "MAX_CACHE = 20"

definition set_has :: "'a list \<Rightarrow> 'a \<Rightarrow> bool" where
  "set_has s x = (x \<in> set s)"

definition set_add :: "'a list \<Rightarrow> 'a \<Rightarrow> 'a list" where
  "set_add s x = (if x \<in> set s then s else s @ [x])"

definition set_delete :: "'a list \<Rightarrow> 'a \<Rightarrow> 'a list" where
  "set_delete s x = removeAll x s"

definition set_delete_first :: "'a list \<Rightarrow> 'a list" where
  "set_delete_first s = (case s of [] \<Rightarrow> [] | first # _ \<Rightarrow> set_delete s first)"

definition normalized_of :: "string \<Rightarrow> string" where
  "normalized_of text = toLowerCase (trim text)"

text \<open>
  \<open>isNewContent(text)\<close>: the answer and the cache it leaves.
\<close>

definition isNewContent :: "string option \<Rightarrow> string list \<Rightarrow> bool \<times> string list" where
  "isNewContent text recentTexts =
     (case text of
        None \<Rightarrow> (False, recentTexts)
      | Some t \<Rightarrow>
          if t = [] \<or> trim t = [] then (False, recentTexts)
          else
            let normalized = normalized_of t in
            if set_has recentTexts normalized then (False, recentTexts)
            else
              let added = set_add recentTexts normalized in
              if length added > MAX_CACHE then (True, set_delete_first added)
              else (True, added))"

text \<open>The cache after a sequence of checks, starting from the empty set of the module.\<close>

definition checks :: "string option list \<Rightarrow> string list" where
  "checks texts = foldl (\<lambda>cache t. snd (isNewContent t cache)) [] texts"

definition cache_inv :: "string list \<Rightarrow> bool" where
  "cache_inv cache = (distinct cache \<and> length cache \<le> MAX_CACHE)"

subsection \<open>Numbers in template strings\<close>

text \<open>
  A template string prints a non-negative integer in decimal, without leading zeros.
\<close>

definition digit_char :: "nat \<Rightarrow> char" where
  "digit_char d = char_of (48 + d)"

fun show_nat :: "nat \<Rightarrow> string" where
  "show_nat n = (if n < 10 then [digit_char n] else show_nat (n div 10) @ [digit_char (n mod 10)])"

declare show_nat.simps [simp del]

subsection \<open>Session entries and the SessionManager\<close>

record text_region =
  region_text :: "string option"
  region_confidence :: "real option"
  region_bbox :: "int list option"

record selection_meta =
  page_url :: string
  page_title :: string
  position :: "int \<times> int \<times> int \<times> int"

text \<open>The \<open>data\<close> argument of \<open>addEntry\<close>: every property the method reads.\<close>

record payload =
  data_text_regions :: "text_region list option"
  data_image_id :: "string option"
  data_detected_language :: "string option"
  data_translated_text :: "string option"
  data_original_text :: "string option"
  data_confidence :: "real option"
  data_source :: "string option"
  data_timestamp :: "string option"
  data_bbox :: "int list option"
  data_image_path :: "string option"
  data_selection_metadata :: "selection_meta option"

text \<open>An entry; a property the source leaves unset is \<open>None\<close>.\<close>

record entry =
  entry_id :: string
  timestamp_created :: string
  source :: string
  image_id :: "string option"
  language :: string
  entry_text :: "string option"
  original_text :: "string option"
  confidence :: real
  bbox :: "int list option"
  timestamp_start :: "string option"
  image_path :: "string option"
  selection_metadata :: "selection_meta option"

text \<open>
  What the environment answers during one call: \<open>Date.now()\<close>,
  \<open>new Date().toISOString()\<close>, \<open>Math.floor(Math.random() * 1000)\<close>, and the
  outcome of the \<open>fetch\<close> to \<open>/api/save-session\<close>.
\<close>

datatype save_response = SaveOk | SaveNotOk | SaveThrows

record call_env =
  date_now :: nat
  iso_now :: string
  random_1000 :: nat
  save_resp :: save_response

record session_data =
  sd_session_id :: string
  sd_start_time :: string
  sd_entries :: "entry list"
  sd_last_updated :: string

datatype sm_effect =
    StorageSet string session_data
  | SaveSessionRequest session_data string bool
  | SetInterval string

record session_manager =
  sm_sessionId :: string
  sm_startTime :: string
  sm_entries :: "entry list"
  autoSaveEnabled :: bool
  isPolling :: bool
  currentPollingSession :: "string option"
  sm_effects :: "sm_effect list"

definition number_or_zero :: "real option \<Rightarrow> real" where
  "number_or_zero c = (case c of None \<Rightarrow> 0 | Some x \<Rightarrow> x)"

definition getSessionData :: "call_env \<Rightarrow> session_manager \<Rightarrow> session_data" where
  "getSessionData env sm =
     \<lparr>sd_session_id = sm_sessionId sm, sd_start_time = sm_startTime sm,
      sd_entries = sm_entries sm, sd_last_updated = iso_now env\<rparr>"

text \<open>
  \<open>pollResults(sessionId)\<close>, up to the \<open>setInterval\<close>: a second request for the
  session that is being polled is dropped; otherwise a polling loop is started.
\<close>

definition pollResults :: "string \<Rightarrow> session_manager \<Rightarrow> session_manager" where
  "pollResults sessionId sm =
     (if isPolling sm \<and> currentPollingSession sm = Some sessionId then sm
      else sm\<lparr>isPolling := True, currentPollingSession := Some sessionId,
              sm_effects := sm_effects sm @ [SetInterval sessionId]\<rparr>)"

text \<open>
  \<open>autoSave(triggerPipeline)\<close>: the snapshot goes to local storage and to the
  backend; polling starts when the backend answered ok to a save that triggered the
  pipeline.
\<close>

definition autoSave :: "call_env \<Rightarrow> bool \<Rightarrow> session_manager \<Rightarrow> session_manager" where
  "autoSave env triggerPipeline sm =
     (if \<not> autoSaveEnabled sm then sm
      else
        let sessionData = getSessionData env sm;
            sm1 = sm\<lparr>sm_effects := sm_effects sm @
                    [StorageSet (sm_sessionId sm) sessionData,
                     SaveSessionRequest sessionData (sm_sessionId sm) triggerPipeline]\<rparr>
        in case save_resp env of
             SaveOk \<Rightarrow> (if triggerPipeline then pollResults (sm_sessionId sm1) sm1 else sm1)
           | SaveNotOk \<Rightarrow> sm1
           | SaveThrows \<Rightarrow> sm1)"

text \<open>The entry built for region \<open>index\<close> of a multi-region OCR result.\<close>

definition region_entry :: "call_env \<Rightarrow> payload \<Rightarrow> string \<Rightarrow> nat \<Rightarrow> text_region \<Rightarrow> entry" where
  "region_entry env data imageId index region =
     \<lparr>entry_id = ''img_txt_'' @ show_nat (date_now env) @ ''_'' @ show_nat index,
      timestamp_created = iso_now env,
      source = ''image'',
      image_id = Some imageId,
      language = or_default (data_detected_language data) ''unknown'',
      entry_text = region_text region,
      original_text = None,
      confidence = number_or_zero (region_confidence region),
      bbox = region_bbox region,
      timestamp_start = None,
      image_path = None,
      selection_metadata = None\<rparr>"

definition id_prefix :: "string \<Rightarrow> string" where
  "id_prefix type =
     (if type = ''subtitle'' then ''sub''
      else if type = ''selected_text'' then ''sel'' else ''img_txt'')"

text \<open>The single entry of the fallback path (subtitle, selection, OCR without regions).\<close>

definition single_entry :: "call_env \<Rightarrow> string \<Rightarrow> payload \<Rightarrow> entry" where
  "single_entry env type data =
     (let entryId = id_prefix type @ ''_'' @ show_nat (date_now env) @ ''_'' @
                    show_nat (random_1000 env);
          entry = \<lparr>entry_id = entryId,
                   timestamp_created = iso_now env,
                   source = (if type = ''subtitle'' then or_default (data_source data) ''audio''
                             else if type = ''selected_text'' then ''user_selection''
                             else ''image''),
                   image_id = None,
                   language = or_default (data_detected_language data) ''unknown'',
                   entry_text = Some (or_default (or_else (data_translated_text data)
                                                    (data_original_text data)) ''''),
                   original_text = Some (or_default (data_original_text data) ''''),
                   confidence = number_or_zero (data_confidence data),
                   bbox = None,
                   timestamp_start = None,
                   image_path = None,
                   selection_metadata = None\<rparr>
      in if type = ''subtitle'' then
           entry\<lparr>timestamp_start := (if truthy (data_timestamp data) then data_timestamp data
                                       else None)\<rparr>
         else if type = ''screen_ocr'' then
           entry\<lparr>image_id := Some (or_default (data_image_id data)
                                     (''img_'' @ show_nat (date_now env))),
                 bbox := Some (case data_bbox data of None \<Rightarrow> [] | Some b \<Rightarrow> b),
                 image_path := (if truthy (data_image_path data) then data_image_path data
                                else None)\<rparr>
         else if type = ''selected_text'' then
           entry\<lparr>selection_metadata := data_selection_metadata data,
                 source := ''user_selection''\<rparr>
         else entry)"

text \<open>\<open>addEntry(type, data)\<close>.\<close>

definition addEntry :: "call_env \<Rightarrow> string \<Rightarrow> payload \<Rightarrow> session_manager \<Rightarrow> session_manager" where
  "addEntry env type data sm =
     (case data_text_regions data of
        Some (r # rs) \<Rightarrow>
          if type = ''screen_ocr'' then
            let imageId = or_default (data_image_id data) (''img_'' @ show_nat (date_now env));
                regions = r # rs;
                pushed = map (\<lambda>(index, region). region_entry env data imageId index region)
                           (zip [0..<length regions] regions)
            in autoSave env False (sm\<lparr>sm_entries := sm_entries sm @ pushed\<rparr>)
          else
            autoSave env False (sm\<lparr>sm_entries := sm_entries sm @ [single_entry env type data]\<rparr>)
      | _ \<Rightarrow>
          autoSave env False (sm\<lparr>sm_entries := sm_entries sm @ [single_entry env type data]\<rparr>))"

text \<open>\<open>finalizeSession()\<close>.\<close>

definition finalizeSession :: "call_env \<Rightarrow> session_manager \<Rightarrow> session_manager" where
  "finalizeSession env sm =
     (let sm1 = autoSave env True sm
      in if length (sm_entries sm1) > 0 then pollResults (sm_sessionId sm1) sm1 else sm1)"

text \<open>A sequence of \<open>addEntry\<close> calls, each with its own answers of the environment.\<close>

definition addEntries ::
  "(call_env \<times> string \<times> payload) list \<Rightarrow> session_manager \<Rightarrow> session_manager" where
  "addEntries calls sm = foldl (\<lambda>s (env, type, data). addEntry env type data s) sm calls"

text \<open>The entries one call appends, whatever the session held before.\<close>

definition pushed_by :: "call_env \<times> string \<times> payload \<Rightarrow> entry list" where
  "pushed_by call =
     (case call of (env, type, data) \<Rightarrow>
        sm_entries (addEntry env type data
          \<lparr>sm_sessionId = [], sm_startTime = [], sm_entries = [], autoSaveEnabled = False,
           isPolling = False, currentPollingSession = None, sm_effects = []\<rparr>))"

text \<open>
  An id built as \<open>prefix_base_suffix\<close> from the clock reading \<open>base\<close>.
\<close>

definition has_base :: "nat \<Rightarrow> string \<Rightarrow> bool" where
  "has_base b i = (\<exists>p k. i = p @ ''_'' @ show_nat b @ ''_'' @ show_nat k)"

text \<open>The constructor, and the inputs the concrete instances below are evaluated at.\<close>

definition SessionManager_new :: "call_env \<Rightarrow> session_manager" where
  "SessionManager_new env =
     \<lparr>sm_sessionId = ''session_'' @ show_nat (date_now env), sm_startTime = iso_now env,
      sm_entries = [], autoSaveEnabled = True, isPolling = False,
      currentPollingSession = None, sm_effects = []\<rparr>"

definition env_at :: "nat \<Rightarrow> nat \<Rightarrow> save_response \<Rightarrow> call_env" where
  "env_at now rnd resp =
     \<lparr>date_now = now, iso_now = ''2024-01-01T00:00:00.000Z'', random_1000 = rnd,
      save_resp = resp\<rparr>"

definition no_data :: payload where
  "no_data =
     \<lparr>data_text_regions = None, data_image_id = None, data_detected_language = None,
      data_translated_text = None, data_original_text = None, data_confidence = None,
      data_source = None, data_timestamp = None, data_bbox = None, data_image_path = None,
      data_selection_metadata = None\<rparr>"

definition region :: "string \<Rightarrow> text_region" where
  "region t = \<lparr>region_text = Some t, region_confidence = None, region_bbox = None\<rparr>"

subsection \<open>The result pollers\<close>

record pipeline_result =
  stage :: nat
  total_claims :: nat

text \<open>
  What a \<open>fetch\<close> of \<open>/api/results/{session_id}\<close> can give: a rejected promise, a
  404, another status that is not ok, or an ok response with its JSON body.
\<close>

datatype results_response =
    FetchThrows
  | NotFound
  | HttpError nat
  | OkJson pipeline_result

datatype page_status = Polling | Rendered pipeline_result | ErrorShown string

text \<open>
  \<open>startPolling(sessionId)\<close> of the results page and of the popup: the counter
  \<open>attempts\<close>, what the page shows, and the delays of the \<open>setTimeout\<close> calls made.
\<close>

record page_poll =
  attempts :: nat
  status :: page_status
  timeouts :: "nat list"

text \<open>
  One run of the closure \<open>poll\<close>.  \<open>attempts++ > maxAttempts\<close> compares the value
  before the increment.  A status that is neither 404 nor ok throws, and lands in the
  \<open>catch\<close> block like a rejected \<open>fetch\<close>.
\<close>

definition poll :: "nat \<Rightarrow> results_response \<Rightarrow> page_poll \<Rightarrow> page_poll" where
  "poll maxAttempts res st =
     (let caught =
        (if attempts st > maxAttempts
         then st\<lparr>attempts := attempts st + 1, status := ErrorShown ''Connection failed.''\<rparr>
         else st\<lparr>attempts := attempts st + 1, timeouts := timeouts st @ [2000]\<rparr>)
      in case res of
           NotFound \<Rightarrow>
             if attempts st > maxAttempts
             then st\<lparr>attempts := attempts st + 1,
                     status := ErrorShown ''Timed out waiting for results.''\<rparr>
             else st\<lparr>attempts := attempts st + 1, timeouts := timeouts st @ [2000]\<rparr>
         | OkJson result \<Rightarrow>
             if stage result = 5 then st\<lparr>status := Rendered result\<rparr>
             else st\<lparr>timeouts := timeouts st @ [1500]\<rparr>
         | HttpError code \<Rightarrow> caught
         | FetchThrows \<Rightarrow> caught)"

text \<open>
  The closure runs once at the start and then once per timeout it has set, each time
  on the next response of the backend; it is not called again once the page shows a
  result or an error.
\<close>

fun polling :: "nat \<Rightarrow> results_response list \<Rightarrow> page_poll \<Rightarrow> page_poll" where
  "polling maxAttempts [] st = st"
| "polling maxAttempts (res # rest) st =
     (if status st = Polling then polling maxAttempts rest (poll maxAttempts res st) else st)"

definition startPolling :: "nat \<Rightarrow> results_response list \<Rightarrow> page_poll" where
  "startPolling maxAttempts responses =
     polling maxAttempts responses \<lparr>attempts = 0, status = Polling, timeouts = []\<rparr>"

text \<open>The results page polls with \<open>maxAttempts = 30\<close>, the popup with 150.\<close>

definition startPolling_results_page :: "results_response list \<Rightarrow> page_poll" where
  "startPolling_results_page responses = startPolling 30 responses"

definition startPolling_popup :: "results_response list \<Rightarrow> page_poll" where
  "startPolling_popup responses = startPolling 150 responses"

text \<open>
  The interval started by \<open>SessionManager.pollResults\<close>: its counter, whether the
  interval is still set, the results handed to the overlay, and whether the time-out
  was logged.
\<close>

record poll_loop =
  loop_attempts :: nat
  interval_set :: bool
  shown :: "pipeline_result list"
  timed_out :: bool

definition pollResults_maxAttempts :: nat where
  "pollResults_maxAttempts = 30"

definition poll_stop :: "session_manager \<times> poll_loop \<Rightarrow> session_manager \<times> poll_loop" where
  "poll_stop s = (case s of (sm, lp) \<Rightarrow> (sm\<lparr>isPolling := False\<rparr>, lp\<lparr>interval_set := False\<rparr>))"

definition poll_ceiling :: "session_manager \<times> poll_loop \<Rightarrow> session_manager \<times> poll_loop" where
  "poll_ceiling s =
     (case s of (sm, lp) \<Rightarrow>
        if loop_attempts lp \<ge> pollResults_maxAttempts
        then poll_stop (sm, lp\<lparr>timed_out := True\<rparr>) else (sm, lp))"

text \<open>One run of the interval's callback for the poll of \<open>sessionId\<close>.\<close>

definition pollTick ::
  "string \<Rightarrow> results_response \<Rightarrow> session_manager \<times> poll_loop \<Rightarrow> session_manager \<times> poll_loop" where
  "pollTick sessionId res s =
     (case s of (sm, lp0) \<Rightarrow>
        let lp = lp0\<lparr>loop_attempts := loop_attempts lp0 + 1\<rparr> in
        if sm_sessionId sm \<noteq> sessionId then poll_stop (sm, lp)
        else case res of
            FetchThrows \<Rightarrow>
              if loop_attempts lp \<ge> pollResults_maxAttempts then poll_stop (sm, lp) else (sm, lp)
          | OkJson result \<Rightarrow>
              if stage result = 5
              then poll_ceiling (poll_stop (sm, lp\<lparr>shown := shown lp @ [result]\<rparr>))
              else poll_ceiling (sm, lp)
          | NotFound \<Rightarrow> poll_ceiling (sm, lp)
          | HttpError code \<Rightarrow> poll_ceiling (sm, lp))"

fun pollTicks ::
  "string \<Rightarrow> results_response list \<Rightarrow> session_manager \<times> poll_loop \<Rightarrow> session_manager \<times> poll_loop" where
  "pollTicks sessionId [] s = s"
| "pollTicks sessionId (res # rest) s =
     (if interval_set (snd s) then pollTicks sessionId rest (pollTick sessionId res s) else s)"

definition new_loop :: poll_loop where
  "new_loop = \<lparr>loop_attempts = 0, interval_set = True, shown = [], timed_out = False\<rparr>"

subsection \<open>The service worker: the registry of pipelines\<close>

record capture_options =
  targetLanguage :: string
  enableTranslation :: bool
  audioEnabled :: bool
  ocrEnabled :: bool

text \<open>
  The \<open>options\<close> argument of \<open>startPipeline\<close>; a flag is the truthiness of the
  property, and the default \<open>{}\<close> has no language and every flag false.
\<close>

record start_options =
  opt_targetLanguage :: "string option"
  opt_enableTranslation :: bool
  opt_audioEnabled :: bool
  opt_ocrEnabled :: bool

record pipeline_state =
  tabId :: nat
  sessionId :: string
  startTime :: string
  entries :: "entry list"
  options :: capture_options

record stt_data =
  stt_original_text :: "string option"
  stt_translated_text :: "string option"
  stt_detected_language :: "string option"
  stt_confidence :: "real option"
  stt_timestamp :: "string option"

datatype runtime_message =
    START_AUDIO nat string
  | STOP_AUDIO nat
  | AUDIO_CHUNK string "nat option"

datatype tab_message =
    PIPELINE_STARTED capture_options
  | PIPELINE_STOPPED
  | AUDIO_SUBTITLE stt_data

text \<open>What the service worker does to the outside, in the order it does it.\<close>

datatype worker_effect =
    RuntimeSend runtime_message
  | TabSend nat tab_message
  | SaveSession session_data string bool
  | SpeechToText string
  | Wait nat

record worker =
  state :: "nat \<rightharpoonup> pipeline_state"
  effects :: "worker_effect list"

text \<open>A promise of the host either rejects, with an error that may carry a message, or resolves.\<close>

datatype 'a outcome = Rejected "string option" | Resolved 'a

record start_env =
  active_tab :: "nat option"
  stop_iso :: string
  start_now :: nat
  start_iso :: string
  ensure_offscreen :: "unit outcome"
  media_stream_id :: "string outcome"

datatype start_result = StartError string | StartSuccess

text \<open>A tab id is falsy when it is absent or 0.\<close>

definition tab_falsy :: "nat option \<Rightarrow> bool" where
  "tab_falsy t = (case t of None \<Rightarrow> True | Some n \<Rightarrow> n = 0)"

definition emit :: "worker_effect \<Rightarrow> worker \<Rightarrow> worker" where
  "emit e w = w\<lparr>effects := effects w @ [e]\<rparr>"

text \<open>
  \<open>autoSaveToBackend(tabId, triggerPipeline)\<close>: the request is sent when the tab has
  a state; its outcome is only logged.
\<close>

definition autoSaveToBackend :: "string \<Rightarrow> nat \<Rightarrow> bool \<Rightarrow> worker \<Rightarrow> worker" where
  "autoSaveToBackend stamp tab triggerPipeline w =
     (case state w tab of
        None \<Rightarrow> w
      | Some session \<Rightarrow>
          emit (SaveSession
                 \<lparr>sd_session_id = sessionId session, sd_start_time = startTime session,
                  sd_entries = entries session, sd_last_updated = stamp\<rparr>
                 (sessionId session) triggerPipeline) w)"

text \<open>
  \<open>stopPipeline(tabId)\<close> runs in two parts.  Up to its \<open>await\<close> it sends
  \<open>STOP_AUDIO\<close> and, when the tab has a state, remembers the session id and issues
  the final save with the trigger flag; the state of the tab is still registered while
  the answer to that save is awaited, and other handlers of the worker can run.
\<close>

definition stopPipeline_begin :: "string \<Rightarrow> nat \<Rightarrow> worker \<Rightarrow> string option \<times> worker" where
  "stopPipeline_begin stamp tab w =
     (let w1 = emit (RuntimeSend (STOP_AUDIO tab)) w in
      case state w1 tab of
        None \<Rightarrow> (None, w1)
      | Some session \<Rightarrow> (Some (sessionId session), autoSaveToBackend stamp tab True w1))"

text \<open>
  After the \<open>await\<close> the state is deleted (when there was one at the beginning) and
  the stop is announced to the tab; the answer is \<open>{stopped: true, sessionId}\<close>.
\<close>

definition stopPipeline_finish :: "nat \<Rightarrow> string option \<Rightarrow> worker \<Rightarrow> string option \<times> worker" where
  "stopPipeline_finish tab found w =
     (let w1 = (case found of
                  None \<Rightarrow> w
                | Some sid \<Rightarrow> w\<lparr>state := (state w)(tab := None)\<rparr>)
      in (found, emit (TabSend tab PIPELINE_STOPPED) w1))"

text \<open>\<open>stopPipeline(tabId)\<close> when no other handler runs during its \<open>await\<close>.\<close>

definition stopPipeline :: "string \<Rightarrow> nat \<Rightarrow> worker \<Rightarrow> string option \<times> worker" where
  "stopPipeline stamp tab w =
     (case stopPipeline_begin stamp tab w of (found, w1) \<Rightarrow> stopPipeline_finish tab found w1)"

definition normalized_options :: "start_options \<Rightarrow> capture_options" where
  "normalized_options opts =
     \<lparr>targetLanguage = or_default (opt_targetLanguage opts) ''en'',
      enableTranslation = opt_enableTranslation opts,
      audioEnabled = opt_audioEnabled opts,
      ocrEnabled = opt_ocrEnabled opts\<rparr>"

text \<open>
  The tail of \<open>startPipeline\<close> once audio is started or not wanted.  It reads the
  options back from the registry; the state was stored a few lines above, and a handler
  is taken to run without another handler in between, so the state is there.
\<close>

definition announce_start :: "start_env \<Rightarrow> nat \<Rightarrow> worker \<Rightarrow> start_result \<times> worker" where
  "announce_start env tab w =
     (case state w tab of
        None \<Rightarrow> (StartSuccess, w)
      | Some session \<Rightarrow>
          (StartSuccess,
           autoSaveToBackend (start_iso env) tab False
             (emit (TabSend tab (PIPELINE_STARTED (options session))) w)))"

text \<open>The state \<open>startPipeline\<close> registers for the tab.\<close>

definition fresh_state :: "start_env \<Rightarrow> nat \<Rightarrow> start_options \<Rightarrow> pipeline_state" where
  "fresh_state env tab opts =
     \<lparr>tabId = tab,
      sessionId = ''session_'' @ show_nat (start_now env),
      startTime = start_iso env,
      entries = [],
      options = normalized_options opts\<rparr>"

text \<open>\<open>startPipeline(tabId, options)\<close>.\<close>

definition startPipeline ::
  "start_env \<Rightarrow> nat option \<Rightarrow> start_options \<Rightarrow> worker \<Rightarrow> start_result \<times> worker" where
  "startPipeline env tabId0 opts w =
     (case (if tab_falsy tabId0 then active_tab env else tabId0) of
        None \<Rightarrow> (StartError ''no_tab'', w)
      | Some tab \<Rightarrow>
          if tab = 0 then (StartError ''no_tab'', w)
          else
            let w1 = (if state w tab \<noteq> None
                      then emit (Wait 500) (snd (stopPipeline (stop_iso env) tab w)) else w);
                w2 = w1\<lparr>state := (state w1)(tab \<mapsto> fresh_state env tab opts)\<rparr>
            in if opt_audioEnabled opts then
                 (case ensure_offscreen env of
                    Rejected message \<Rightarrow> (StartError (or_default message ''offscreen_failed''), w2)
                  | Resolved u \<Rightarrow>
                      (case media_stream_id env of
                         Rejected message \<Rightarrow>
                           (StartError (or_default message ''offscreen_failed''), w2)
                       | Resolved streamId \<Rightarrow>
                           announce_start env tab
                             (emit (RuntimeSend (START_AUDIO tab streamId)) w2)))
               else announce_start env tab w2)"

text \<open>
  \<open>sendToBackend(base64Audio, tabId)\<close>.  The answer of the speech-to-text service:
  a rejected \<open>fetch\<close>, a status that is not ok, a body that is not JSON, or the data.
\<close>

datatype stt_response = SttThrows | SttNotOk nat | SttBadJson | SttJson stt_data

record chunk_env =
  chunk_now :: nat
  chunk_iso :: string
  chunk_random :: nat

definition subtitle_entry :: "chunk_env \<Rightarrow> stt_data \<Rightarrow> entry" where
  "subtitle_entry env data =
     \<lparr>entry_id = ''sub_'' @ show_nat (chunk_now env) @ ''_'' @ show_nat (chunk_random env),
      timestamp_created = chunk_iso env,
      source = ''audio'',
      image_id = None,
      language = or_default (stt_detected_language data) ''unknown'',
      entry_text = Some (or_default (or_else (stt_translated_text data)
                                       (stt_original_text data)) ''''),
      original_text = Some (or_default (stt_original_text data) ''''),
      confidence = number_or_zero (stt_confidence data),
      bbox = None,
      timestamp_start = stt_timestamp data,
      image_path = None,
      selection_metadata = None\<rparr>"

text \<open>
  The part after \<open>await fetch\<close>.  When the state of the tab has been deleted in the
  meantime, \<open>session.entries\<close> throws a TypeError, which the \<open>catch\<close> block logs.
\<close>

definition stt_answered :: "chunk_env \<Rightarrow> stt_response \<Rightarrow> nat \<Rightarrow> worker \<Rightarrow> worker" where
  "stt_answered env res tab w =
     (case res of
        SttJson data \<Rightarrow>
          if truthy (stt_original_text data) \<or> truthy (stt_translated_text data) then
            (case state w tab of
               None \<Rightarrow> w
             | Some session \<Rightarrow>
                 let session' = session\<lparr>entries := entries session @ [subtitle_entry env data]\<rparr>;
                     w1 = w\<lparr>state := (state w)(tab \<mapsto> session')\<rparr>
                 in emit (TabSend tab (AUDIO_SUBTITLE data))
                      (autoSaveToBackend (chunk_iso env) tab False w1))
          else w
      | SttThrows \<Rightarrow> w
      | SttNotOk code \<Rightarrow> w
      | SttBadJson \<Rightarrow> w)"

text \<open>
  The part before \<open>await fetch\<close>: the guard, and the request when the guard lets
  the chunk pass; the result names the tab whose answer is awaited.
\<close>

definition sendToBackend_request :: "string \<Rightarrow> nat option \<Rightarrow> worker \<Rightarrow> nat option \<times> worker" where
  "sendToBackend_request base64Audio tabId0 w =
     (case tabId0 of
        None \<Rightarrow> (None, w)
      | Some tab \<Rightarrow>
          if tab = 0 \<or> state w tab = None then (None, w)
          else (Some tab, emit (SpeechToText base64Audio) w))"

text \<open>\<open>sendToBackend\<close> when no other handler runs during its \<open>await\<close>.\<close>

definition sendToBackend ::
  "chunk_env \<Rightarrow> stt_response \<Rightarrow> string \<Rightarrow> nat option \<Rightarrow> worker \<Rightarrow> worker" where
  "sendToBackend env res base64Audio tabId0 w =
     (case tabId0 of
        None \<Rightarrow> w
      | Some tab \<Rightarrow>
          if tab = 0 \<or> state w tab = None then w
          else stt_answered env res tab (emit (SpeechToText base64Audio) w))"

subsection \<open>The offscreen document: the audio chunk recorder\<close>

text \<open>
  The module's variables (\<open>isStopping\<close>, \<open>recorder\<close>, \<open>timer\<close>, \<open>chunks\<close>,
  \<open>window.targetTabId\<close>, \<open>window.currentStream\<close>), the blobs whose
  \<open>blobToBase64\<close> is awaited by an \<open>onstop\<close> handler, the number of
  \<open>recorder.stop()\<close> calls made, and the messages sent to the service worker.
\<close>

datatype recorder_state = Recording | Inactive

record offscreen =
  isStopping :: bool
  recorder :: "recorder_state option"
  timer_set :: bool
  chunks :: "string list"
  targetTabId :: "nat option"
  currentStream :: "string option"
  encoding :: "string list"
  stops_issued :: nat
  sent :: "runtime_message list"

text \<open>What \<open>getUserMedia\<close> and \<open>getSupportedMimeType\<close> answer to a start.\<close>

datatype media_answer = UserMediaRejected | NoMimeType string | MediaReady string

text \<open>
  The events of the document: the two messages, the rotation timer, the recorder's
  \<open>dataavailable\<close> and \<open>stop\<close> events, and the completion of a
  \<open>blobToBase64\<close>.  The browser decides when the recorder's events fire; every
  order is allowed here.
\<close>

datatype offscreen_event =
    StartAudio nat "string option" media_answer
  | StopAudio
  | TimerFires
  | DataAvailable string
  | RecorderStopped
  | Base64Ready

definition start_audio :: "nat \<Rightarrow> string option \<Rightarrow> media_answer \<Rightarrow> offscreen \<Rightarrow> offscreen" where
  "start_audio tab streamId answer s =
     (if \<not> truthy streamId then s
      else
        let s1 = s\<lparr>targetTabId := Some tab, isStopping := False\<rparr> in
        case answer of
          UserMediaRejected \<Rightarrow> s1
        | NoMimeType stream \<Rightarrow> s1\<lparr>currentStream := Some stream\<rparr>
        | MediaReady stream \<Rightarrow>
            s1\<lparr>currentStream := Some stream, recorder := Some Recording, timer_set := True\<rparr>)"

definition stop_audio :: "offscreen \<Rightarrow> offscreen" where
  "stop_audio s =
     (let s1 = s\<lparr>isStopping := True, timer_set := False\<rparr>;
          s2 = (if recorder s1 = Some Recording
                then s1\<lparr>recorder := Some Inactive, stops_issued := stops_issued s1 + 1\<rparr>
                else s1)
      in s2\<lparr>currentStream := None, chunks := []\<rparr>)"

definition timer_fires :: "offscreen \<Rightarrow> offscreen" where
  "timer_fires s =
     (if timer_set s \<and> recorder s = Some Recording
      then s\<lparr>stops_issued := stops_issued s + 1\<rparr> else s)"

definition ondataavailable :: "string \<Rightarrow> offscreen \<Rightarrow> offscreen" where
  "ondataavailable d s = (if d \<noteq> [] then s\<lparr>chunks := chunks s @ [d]\<rparr> else s)"

text \<open>\<open>recorder.onstop\<close>, up to the \<open>await\<close>.\<close>

definition onstop :: "offscreen \<Rightarrow> offscreen" where
  "onstop s =
     (if isStopping s then s\<lparr>chunks := []\<rparr>
      else s\<lparr>encoding := encoding s @ [concat (chunks s)], chunks := []\<rparr>)"

text \<open>\<open>recorder.onstop\<close>, after the \<open>await\<close>: the chunk goes to the service worker.\<close>

definition base64_ready :: "offscreen \<Rightarrow> offscreen" where
  "base64_ready s =
     (case encoding s of
        [] \<Rightarrow> s
      | blob # rest \<Rightarrow>
          s\<lparr>encoding := rest, sent := sent s @ [AUDIO_CHUNK blob (targetTabId s)]\<rparr>)"

fun offscreen_step :: "offscreen \<Rightarrow> offscreen_event \<Rightarrow> offscreen" where
  "offscreen_step s (StartAudio tab streamId answer) = start_audio tab streamId answer s"
| "offscreen_step s StopAudio = stop_audio s"
| "offscreen_step s TimerFires = timer_fires s"
| "offscreen_step s (DataAvailable d) = ondataavailable d s"
| "offscreen_step s RecorderStopped = onstop s"
| "offscreen_step s Base64Ready = base64_ready s"

definition offscreen_run :: "offscreen \<Rightarrow> offscreen_event list \<Rightarrow> offscreen" where
  "offscreen_run s events = foldl offscreen_step s events"

fun is_start :: "offscreen_event \<Rightarrow> bool" where
  "is_start (StartAudio tab streamId answer) = True"
| "is_start e = False"

subsection \<open>The keyframe sweep\<close>

text \<open>
  \<open>video.duration\<close> is NaN without media, a finite number of seconds, or infinite
  for a live stream.
\<close>

datatype duration = NaN | Finite real | Infinite

record video =
  currentTime :: real
  paused :: bool
  readyState :: nat
  video_duration :: duration

text \<open>
  What happens at one step of the sweep: the seek throws, \<open>captureFrame\<close> gives
  null, the \<open>fetch\<close> to \<open>/api/save-image\<close> rejects or answers not ok, or the frame
  is saved under a path.  Whether the \<open>seeked\<close> event or the one second time-out ends
  the wait makes no difference to what follows.
\<close>

datatype step_outcome =
    SeekThrows
  | NoFrame
  | ImageSaveThrows
  | ImageSaveNotOk
  | ImageSaved string

record keyframe =
  kf_image_id :: string
  kf_image_path :: string
  kf_timestamp :: nat

record step_answer =
  step_outcome :: step_outcome
  step_now :: nat

definition sweep_step ::
  "(nat \<Rightarrow> step_answer) \<Rightarrow> nat \<Rightarrow> video \<times> keyframe list \<Rightarrow> video \<times> keyframe list" where
  "sweep_step answers time acc =
     (case acc of (v, keyframes) \<Rightarrow>
        case step_outcome (answers time) of
          SeekThrows \<Rightarrow> (v, keyframes)
        | NoFrame \<Rightarrow> (v\<lparr>currentTime := real time\<rparr>, keyframes)
        | ImageSaveThrows \<Rightarrow> (v\<lparr>currentTime := real time\<rparr>, keyframes)
        | ImageSaveNotOk \<Rightarrow> (v\<lparr>currentTime := real time\<rparr>, keyframes)
        | ImageSaved path \<Rightarrow>
            (v\<lparr>currentTime := real time\<rparr>,
             keyframes @
               [\<lparr>kf_image_id = ''keyframe_'' @ show_nat (step_now (answers time)) @ ''_'' @
                                show_nat time,
                 kf_image_path = path, kf_timestamp = time\<rparr>]))"

definition time_before :: "nat \<Rightarrow> duration \<Rightarrow> bool" where
  "time_before time d =
     (case d of NaN \<Rightarrow> False | Finite x \<Rightarrow> real time < x | Infinite \<Rightarrow> True)"

text \<open>
  \<open>for (let time = 0; time < duration; time += interval)\<close> with \<open>interval = 3\<close>.
  On a live stream the loop does not end: the sweep has no result.
\<close>

partial_function (option) sweep ::
  "(nat \<Rightarrow> step_answer) \<Rightarrow> duration \<Rightarrow> nat \<Rightarrow> video \<times> keyframe list \<Rightarrow>
   (video \<times> keyframe list) option" where
  "sweep answers d time acc =
     (if time_before time d then sweep answers d (time + 3) (sweep_step answers time acc)
      else Some acc)"

definition duration_falsy :: "duration \<Rightarrow> bool" where
  "duration_falsy d = (case d of NaN \<Rightarrow> True | Finite x \<Rightarrow> x = 0 | Infinite \<Rightarrow> False)"

text \<open>
  \<open>handleExtractKeyframes\<close>, from the video found on the page to the restored video
  and the keyframes; \<open>None\<close> when the handler does not return.  The wait for the
  metadata of a video that is not ready changes nothing here.  The keyframes are added
  to the session afterwards, which does not touch the video.
\<close>

definition handleExtractKeyframes ::
  "(nat \<Rightarrow> step_answer) \<Rightarrow> video option \<Rightarrow> (video option \<times> keyframe list) option" where
  "handleExtractKeyframes answers found =
     (case found of
        None \<Rightarrow> Some (None, [])
      | Some v \<Rightarrow>
          if duration_falsy (video_duration v) then Some (Some v, [])
          else
            let originalTime = currentTime v;
                originalPaused = paused v;
                v1 = (if \<not> paused v then v\<lparr>paused := True\<rparr> else v)
            in case sweep answers (video_duration v) 0 (v1, []) of
                 None \<Rightarrow> None
               | Some (v2, keyframes) \<Rightarrow>
                   let v3 = v2\<lparr>currentTime := originalTime\<rparr>;
                       v4 = (if \<not> originalPaused then v3\<lparr>paused := False\<rparr> else v3)
                   in Some (Some v4, keyframes))"

text \<open>The entries made of the keyframes, one \<open>addEntry\<close> call each.\<close>

definition keyframe_payload :: "keyframe \<Rightarrow> payload" where
  "keyframe_payload k =
     no_data\<lparr>data_image_id := Some (kf_image_id k), data_image_path := Some (kf_image_path k),
             data_source := Some ''video_keyframe'', data_confidence := Some 1\<rparr>"

text \<open>Inputs the concrete instances of the service worker are evaluated at.\<close>

definition new_worker :: worker where
  "new_worker = \<lparr>state = Map.empty, effects = []\<rparr>"

definition start_env_at :: "nat \<Rightarrow> string outcome \<Rightarrow> start_env" where
  "start_env_at now stream =
     \<lparr>active_tab = None, stop_iso = ''2024-01-01T00:00:09.000Z'', start_now = now,
      start_iso = ''2024-01-01T00:00:10.000Z'', ensure_offscreen = Resolved (),
      media_stream_id = stream\<rparr>"

definition audio_options :: start_options where
  "audio_options =
     \<lparr>opt_targetLanguage = Some ''hi'', opt_enableTranslation = False,
      opt_audioEnabled = True, opt_ocrEnabled = True\<rparr>"

definition chunk_env_at :: "nat \<Rightarrow> nat \<Rightarrow> chunk_env" where
  "chunk_env_at now rnd =
     \<lparr>chunk_now = now, chunk_iso = ''2024-01-01T00:00:11.000Z'', chunk_random = rnd\<rparr>"

definition speech :: stt_data where
  "speech =
     \<lparr>stt_original_text = Some ''hello'', stt_translated_text = None,
      stt_detected_language = Some ''en'', stt_confidence = None, stt_timestamp = None\<rparr>"

definition no_speech :: stt_data where
  "no_speech =
     \<lparr>stt_original_text = Some [], stt_translated_text = None,
      stt_detected_language = None, stt_confidence = None, stt_timestamp = None\<rparr>"

text \<open>
  The offscreen document as loaded, and the recorder running for tab 7 with one piece
  of data buffered, as left by a start and a \<open>dataavailable\<close> event.
\<close>

definition new_offscreen :: offscreen where
  "new_offscreen =
     \<lparr>isStopping = False, recorder = None, timer_set = False, chunks = [],
      targetTabId = None, currentStream = None, encoding = [], stops_issued = 0, sent = []\<rparr>"

definition recording_offscreen :: offscreen where
  "recording_offscreen =
     offscreen_run new_offscreen
       [StartAudio 7 (Some ''stream-1'') (MediaReady ''stream-1''), DataAvailable ''abc'']"

text \<open>
  A playing video of seven seconds at position 4.5, and a sweep whose seek throws at
  0, whose frame is saved at 3 and whose save request fails at 6.
\<close>

definition sample_video :: video where
  "sample_video =
     \<lparr>currentTime = 9 / 2, paused = False, readyState = 4, video_duration = Finite 7\<rparr>"

definition sample_answers :: "nat \<Rightarrow> step_answer" where
  "sample_answers time =
     (if time = 0 then \<lparr>step_outcome = SeekThrows, step_now = 5\<rparr>
      else if time = 3 then \<lparr>step_outcome = ImageSaved ''sessions/images/k.jpg'', step_now = 5\<rparr>
      else \<lparr>step_outcome = ImageSaveThrows, step_now = 5\<rparr>)"

section \<open>Properties\<close>

subsection \<open>The dedup cache\<close>

lemma set_delete_first_distinct:
  "distinct s \<Longrightarrow> set_delete_first s = tl s"
  by (cases s) (simp_all add: set_delete_first_def set_delete_def)

lemma isNewContent_inv:
  assumes "cache_inv cache"
  shows "cache_inv (snd (isNewContent text cache))"
proof (cases "text")
  case None
  with assms show ?thesis by (simp add: isNewContent_def)
next
  case (Some t)
  show ?thesis
  proof (cases "t = [] \<or> trim t = [] \<or> normalized_of t \<in> set cache")
    case True
    with assms Some show ?thesis
      by (auto simp: isNewContent_def set_has_def Let_def)
  next
    case False
    from assms have d: "distinct (cache @ [normalized_of t])"
      using False by (simp add: cache_inv_def)
    from assms have l: "length cache \<le> MAX_CACHE" by (simp add: cache_inv_def)
    have "cache_inv (tl (cache @ [normalized_of t]))" if "MAX_CACHE < Suc (length cache)"
      using that d l unfolding cache_inv_def by (simp add: distinct_tl)
    moreover have "cache_inv (cache @ [normalized_of t])" if "\<not> MAX_CACHE < Suc (length cache)"
      using that d unfolding cache_inv_def by simp
    ultimately show ?thesis
      using False Some d
      by (simp add: isNewContent_def set_has_def set_add_def Let_def
          set_delete_first_distinct)
  qed
qed

lemma checks_snoc:
  "checks (texts @ [t]) = snd (isNewContent t (checks texts))"
  by (simp add: checks_def)

lemma checks_inv: "cache_inv (checks texts)"
proof (induction texts rule: rev_induct)
  case Nil
  show ?case by (simp add: checks_def cache_inv_def)
next
  case (snoc t texts)
  then show ?case by (simp add: checks_snoc isNewContent_inv)
qed

lemma isNewContent_admit_full:
  assumes "cache_inv cache" and "length cache = MAX_CACHE"
    and "fst (isNewContent (Some t) cache)"
  shows "snd (isNewContent (Some t) cache) = tl cache @ [normalized_of t]"
proof -
  from assms(3) have new: "t \<noteq> []" "trim t \<noteq> []" "normalized_of t \<notin> set cache"
    by (auto simp: isNewContent_def set_has_def Let_def split: if_splits)
  from assms(1) new have d: "distinct (cache @ [normalized_of t])"
    by (simp add: cache_inv_def)
  from assms(2) have ne: "cache \<noteq> []" by (auto simp: MAX_CACHE_def)
  from new d assms(2) have "snd (isNewContent (Some t) cache) = tl (cache @ [normalized_of t])"
    by (simp add: isNewContent_def set_has_def set_add_def Let_def
        set_delete_first_distinct)
  with ne show ?thesis by simp
qed

lemma isNewContent_recheck:
  assumes "normalized_of t \<in> set cache"
  shows "isNewContent (Some t) cache = (False, cache)"
  using assms by (simp add: isNewContent_def set_has_def Let_def)

text \<open>
  Claim C5.  After every sequence of \<open>isNewContent\<close> checks the cache holds at most
  \<open>MAX_CACHE\<close> (20) normalized strings, without duplicates.  When the cache holds
  exactly \<open>MAX_CACHE\<close> strings and a further text is admitted, the cache afterwards is
  the old one without its oldest member, followed by the new normalized string.  A text
  whose normalized form is already a member is rejected and leaves the cache, order
  included, as it was.
\<close>

theorem dedup_cache_bounded_fifo:
  "length (checks texts) \<le> MAX_CACHE \<and> distinct (checks texts) \<and>
   (length (checks texts) = MAX_CACHE \<and> fst (isNewContent (Some t) (checks texts)) \<longrightarrow>
      snd (isNewContent (Some t) (checks texts)) = tl (checks texts) @ [normalized_of t]) \<and>
   (normalized_of t \<in> set (checks texts) \<longrightarrow>
      isNewContent (Some t) (checks texts) = (False, checks texts))"
  using checks_inv [of texts] isNewContent_admit_full [of "checks texts" t]
    isNewContent_recheck [of t "checks texts"]
  by (simp add: cache_inv_def)


lemmas dedup_eval = checks_def isNewContent_def normalized_of_def trim_def toLowerCase_def
  lower_char_def is_space_def set_has_def set_add_def set_delete_first_def set_delete_def
  MAX_CACHE_def

theorem dedup_cache_bounded_fifo_witness:
  "length (checks (map (\<lambda>c. Some [c]) ''abcdefghijklmnopqrst'')) = MAX_CACHE \<and>
   fst (isNewContent (Some '' u '') (checks (map (\<lambda>c. Some [c]) ''abcdefghijklmnopqrst''))) \<and>
   snd (isNewContent (Some '' u '') (checks (map (\<lambda>c. Some [c]) ''abcdefghijklmnopqrst'')))
     = map (\<lambda>c. [c]) ''bcdefghijklmnopqrstu'' \<and>
   normalized_of '' b'' \<in> set (checks (map (\<lambda>c. Some [c]) ''abcdefghijklmnopqrst'')) \<and>
   isNewContent (Some '' b'') (checks (map (\<lambda>c. Some [c]) ''abcdefghijklmnopqrst''))
     = (False, map (\<lambda>c. [c]) ''abcdefghijklmnopqrst'')"
proof -
  let ?T = "map (\<lambda>c. Some [c]) ''abcdefghijklmnopqrst''"
  have c: "checks ?T = map (\<lambda>c. [c]) ''abcdefghijklmnopqrst''"
    by (simp add: dedup_eval)
  have len: "length (checks ?T) = MAX_CACHE"
    unfolding c by (simp add: MAX_CACHE_def)
  have adm: "fst (isNewContent (Some '' u '') (checks ?T))"
    unfolding c by (simp add: dedup_eval)
  have n1: "normalized_of '' u '' = ''u''"
    by (simp add: dedup_eval)
  have mem: "normalized_of '' b'' \<in> set (checks ?T)"
    unfolding c by (simp add: dedup_eval)
  from dedup_cache_bounded_fifo [of ?T "'' u ''"] len adm
  have "snd (isNewContent (Some '' u '') (checks ?T)) = tl (checks ?T) @ [normalized_of '' u '']"
    by blast
  then have e: "snd (isNewContent (Some '' u '') (checks ?T)) = map (\<lambda>c. [c]) ''bcdefghijklmnopqrstu''"
    unfolding c n1 by simp
  from dedup_cache_bounded_fifo [of ?T "'' b''"] mem
  have "isNewContent (Some '' b'') (checks ?T) = (False, checks ?T)"
    by blast
  then have r: "isNewContent (Some '' b'') (checks ?T) = (False, map (\<lambda>c. [c]) ''abcdefghijklmnopqrst'')"
    unfolding c .
  from len adm e mem r show ?thesis by blast
qed

subsection \<open>Decimal numerals and entry ids\<close>


lemma of_char_digit_char: "d < 10 \<Longrightarrow> (of_char (digit_char d) :: nat) = 48 + d"
  by (simp add: digit_char_def)

lemma digit_char_inj: "d < 10 \<Longrightarrow> d' < 10 \<Longrightarrow> digit_char d = digit_char d' \<Longrightarrow> d = d'"
  by (metis of_char_digit_char add_left_cancel)

lemma digit_char_not_underscore: "d < 10 \<Longrightarrow> digit_char d \<noteq> CHR ''_''"
proof
  assume "d < 10" and "digit_char d = CHR ''_''"
  then have "(of_char (digit_char d) :: nat) = of_char (CHR ''_'')" by simp
  with \<open>d < 10\<close> show False by (simp add: of_char_digit_char)
qed

lemma show_nat_not_Nil: "show_nat n \<noteq> []"
  by (subst show_nat.simps) simp

lemma show_nat_no_underscore: "CHR ''_'' \<notin> set (show_nat n)"
proof (induction n rule: show_nat.induct)
  case (1 n)
  show ?case
  proof (cases "n < 10")
    case True
    then show ?thesis
      using digit_char_not_underscore [of n] by (subst show_nat.simps) auto
  next
    case False
    have "n mod 10 < 10" by simp
    then have "digit_char (n mod 10) \<noteq> CHR ''_''" by (rule digit_char_not_underscore)
    with False 1 show ?thesis by (subst show_nat.simps) auto
  qed
qed

lemma show_nat_inj: "show_nat n = show_nat m \<Longrightarrow> n = m"
proof (induction n arbitrary: m rule: show_nat.induct)
  case (1 n)
  show ?case
  proof (cases "n < 10")
    case n: True
    show ?thesis
    proof (cases "m < 10")
      case True
      with n 1(2) show ?thesis
        by (simp add: show_nat.simps [of n] show_nat.simps [of m] digit_char_inj)
    next
      case False
      with n 1(2) show_nat_not_Nil [of "m div 10"] show ?thesis
        by (auto simp: show_nat.simps [of n] show_nat.simps [of m])
    qed
  next
    case n: False
    show ?thesis
    proof (cases "m < 10")
      case True
      with n 1(2) show_nat_not_Nil [of "n div 10"] show ?thesis
        by (auto simp: show_nat.simps [of n] show_nat.simps [of m])
    next
      case False
      with n 1(2) have eq: "show_nat (n div 10) = show_nat (m div 10)"
        and dg: "digit_char (n mod 10) = digit_char (m mod 10)"
        by (simp_all add: show_nat.simps [of n] show_nat.simps [of m])
      from 1(1) [OF n eq] have "n div 10 = m div 10" .
      moreover from dg have "n mod 10 = m mod 10" by (simp add: digit_char_inj)
      ultimately show ?thesis by (metis div_mult_mod_eq)
    qed
  qed
qed

lemma split_at_last:
  assumes "u \<notin> set a" and "u \<notin> set b" and "xs @ u # a = ys @ u # b"
  shows "a = b \<and> xs = ys"
proof -
  have "takeWhile (\<lambda>c. c \<noteq> u) (rev (xs @ u # a)) = rev a"
    using assms(1) by (auto simp: takeWhile_tail)
  moreover have "takeWhile (\<lambda>c. c \<noteq> u) (rev (ys @ u # b)) = rev b"
    using assms(2) by (auto simp: takeWhile_tail)
  ultimately have "a = b" using assms(3) by (metis rev_is_rev_conv)
  with assms(3) show ?thesis by simp
qed

lemma has_base_unique:
  assumes "has_base b i" and "has_base b' i"
  shows "b = b'"
proof -
  from assms(1) obtain p k where i: "i = p @ ''_'' @ show_nat b @ ''_'' @ show_nat k"
    unfolding has_base_def by blast
  from assms(2) obtain p' k' where i': "i = p' @ ''_'' @ show_nat b' @ ''_'' @ show_nat k'"
    unfolding has_base_def by blast
  from i i' have "(p @ ''_'' @ show_nat b) @ CHR ''_'' # show_nat k =
      (p' @ ''_'' @ show_nat b') @ CHR ''_'' # show_nat k'" by simp
  from split_at_last [OF show_nat_no_underscore show_nat_no_underscore this]
  have "p @ CHR ''_'' # show_nat b = p' @ CHR ''_'' # show_nat b'" by simp
  from split_at_last [OF show_nat_no_underscore show_nat_no_underscore this]
  show ?thesis by (simp add: show_nat_inj)
qed

subsection \<open>SessionManager: entries and their ids\<close>


lemma pollResults_entries [simp]: "sm_entries (pollResults i sm) = sm_entries sm"
  by (simp add: pollResults_def)

lemma autoSave_entries [simp]: "sm_entries (autoSave env t sm) = sm_entries sm"
  by (simp add: autoSave_def Let_def split: save_response.splits)

lemma addEntry_regions:
  assumes "data_text_regions data = Some regions" and "regions \<noteq> []"
  shows "sm_entries (addEntry env ''screen_ocr'' data sm) =
     sm_entries sm @ map (\<lambda>(index, region).
        region_entry env data (or_default (data_image_id data) (''img_'' @ show_nat (date_now env)))
          index region) (zip [0..<length regions] regions)"
  using assms by (cases regions) (simp_all add: addEntry_def Let_def)

lemma addEntry_pushed_by:
  "sm_entries (addEntry env type data sm) = sm_entries sm @ pushed_by (env, type, data)"
  by (simp add: addEntry_def pushed_by_def Let_def split: option.splits list.splits)

lemma addEntries_entries:
  "sm_entries (addEntries calls sm) = sm_entries sm @ concat (map pushed_by calls)"
proof (induction calls arbitrary: sm)
  case Nil
  show ?case by (simp add: addEntries_def)
next
  case (Cons c cs)
  obtain env type data where c: "c = (env, type, data)" by (cases c)
  have "addEntries (c # cs) sm = addEntries cs (addEntry env type data sm)"
    by (simp add: addEntries_def c)
  then show ?case by (simp add: Cons.IH addEntry_pushed_by c)
qed

lemma pushed_by_has_base:
  assumes "e \<in> set (pushed_by (env, type, data))"
  shows "has_base (date_now env) (entry_id e)"
proof -
  have r: "has_base (date_now env) (entry_id (region_entry env data i k region))" for i k region
    unfolding has_base_def region_entry_def
    by (rule exI [of _ "''img_txt''"], rule exI [of _ k]) simp
  have s: "has_base (date_now env) (entry_id (single_entry env type data))"
    unfolding has_base_def
    by (rule exI [of _ "id_prefix type"], rule exI [of _ "random_1000 env"])
       (simp add: single_entry_def Let_def)
  from assms show ?thesis
    by (auto simp: pushed_by_def addEntry_def Let_def r s split: option.splits list.splits if_splits)
qed

lemma pushed_by_cases:
  "pushed_by (env, type, data) = [single_entry env type data] \<or>
   (\<exists>regions i. pushed_by (env, type, data) =
      map (\<lambda>(index, region). region_entry env data i index region)
        (zip [0..<length regions] regions))"
proof (cases "\<exists>r rs. data_text_regions data = Some (r # rs) \<and> type = ''screen_ocr''")
  case True
  then obtain r rs where "data_text_regions data = Some (r # rs)" and "type = ''screen_ocr''"
    by blast
  then have "pushed_by (env, type, data) =
      map (\<lambda>(index, region). region_entry env data
          (or_default (data_image_id data) (''img_'' @ show_nat (date_now env))) index region)
        (zip [0..<length (r # rs)] (r # rs))"
    by (simp add: pushed_by_def addEntry_def Let_def)
  then show ?thesis by blast
next
  case False
  then have "pushed_by (env, type, data) = [single_entry env type data]"
    by (auto simp: pushed_by_def addEntry_def Let_def split: option.splits list.splits)
  then show ?thesis by blast
qed

lemma region_ids_distinct:
  "distinct (map entry_id (map (\<lambda>(index, region). region_entry env data i index region)
      (zip [0..<length regions] regions)))"
proof -
  have "inj_on (\<lambda>(index, region). entry_id (region_entry env data i index region))
     (set (zip [0..<length regions] regions))"
    by (rule inj_onI) (auto simp: region_entry_def in_set_zip dest: show_nat_inj)
  moreover have "distinct (zip [0..<length regions] regions)"
    by (simp add: distinct_zipI1)
  ultimately have "distinct (map (\<lambda>(index, region). entry_id (region_entry env data i index region))
      (zip [0..<length regions] regions))"
    by (simp add: distinct_map)
  moreover have "entry_id \<circ> (\<lambda>(index, region). region_entry env data i index region) =
      (\<lambda>(index, region). entry_id (region_entry env data i index region))"
    by (rule ext) (simp add: case_prod_unfold)
  ultimately show ?thesis by simp
qed

lemma pushed_by_distinct: "distinct (map entry_id (pushed_by (env, type, data)))"
  using pushed_by_cases [of env type data] region_ids_distinct [of env data]
  by (elim disjE exE) simp_all

lemma ids_distinct_clock:
  assumes "distinct (map (\<lambda>call. date_now (fst call)) calls)"
  shows "distinct (map entry_id (concat (map pushed_by calls)))"
  using assms
proof (induction calls)
  case Nil
  show ?case by simp
next
  case (Cons c cs)
  obtain env type data where c: "c = (env, type, data)" by (cases c)
  have disj: "entry_id e \<noteq> entry_id e'"
    if "e \<in> set (pushed_by c)" and "e' \<in> set (concat (map pushed_by cs))" for e e'
  proof
    assume eq: "entry_id e = entry_id e'"
    from that(2) obtain c' where c': "c' \<in> set cs" and e': "e' \<in> set (pushed_by c')"
      by auto
    obtain env' type' data' where c'_def: "c' = (env', type', data')" by (cases c')
    from that(1) have "has_base (date_now env) (entry_id e)"
      by (simp add: c pushed_by_has_base)
    moreover from e' have "has_base (date_now env') (entry_id e')"
      by (simp add: c'_def pushed_by_has_base)
    ultimately have "date_now env = date_now env'"
      using eq by (simp add: has_base_unique)
    moreover from Cons.prems c' have "date_now (fst c) \<noteq> date_now (fst c')"
      by auto
    ultimately show False by (simp add: c c'_def)
  qed
  from Cons have "distinct (map entry_id (concat (map pushed_by cs)))" by simp
  moreover have "distinct (map entry_id (pushed_by c))"
    by (simp add: c pushed_by_distinct)
  ultimately show ?case using disj by auto
qed

lemma show_small:
  "show_nat 0 = ''0''" "show_nat 1 = ''1''" "show_nat (Suc 0) = ''1''"
  "show_nat 2 = ''2''" "show_nat 3 = ''3''" "show_nat 5 = ''5''" "show_nat 7 = ''7''"
  "show_nat 9 = ''9''"
  by code_simp+

lemmas sm_eval = addEntries_def addEntry_def region_entry_def single_entry_def autoSave_def
  pollResults_def finalizeSession_def getSessionData_def env_at_def no_data_def region_def
  SessionManager_new_def id_prefix_def or_default_def or_else_def truthy_def
  number_or_zero_def Let_def show_small

text \<open>
  Claim C8, as stated: every OCR payload with \<open>R \<ge> 1\<close> text regions passed to
  \<open>addEntry\<close> gives \<open>R\<close> entries that share one \<open>image_id\<close>.  It fails for
  the kinds other than \<open>screen_ocr\<close>: the regions are expanded only under the guard
  \<open>type === 'screen_ocr'\<close>, and the periodic frame sampler stores its OCR results
  with \<open>addEntry('subtitle', result)\<close>.  A payload with two regions stored as a
  subtitle gives one entry, without \<open>image_id\<close>.
\<close>

theorem subtitle_kind_is_not_expanded:
  "data_text_regions (no_data\<lparr>data_text_regions := Some [region ''a'', region ''b''],
       data_original_text := Some ''a b''\<rparr>) = Some [region ''a'', region ''b''] \<and>
   map entry_id (sm_entries (addEntry (env_at 5 7 SaveOk) ''subtitle''
     (no_data\<lparr>data_text_regions := Some [region ''a'', region ''b''],
         data_original_text := Some ''a b''\<rparr>)
     (SessionManager_new (env_at 2 0 SaveOk)))) = [''sub_5_7''] \<and>
   map image_id (sm_entries (addEntry (env_at 5 7 SaveOk) ''subtitle''
     (no_data\<lparr>data_text_regions := Some [region ''a'', region ''b''],
         data_original_text := Some ''a b''\<rparr>)
     (SessionManager_new (env_at 2 0 SaveOk)))) = [None]"
  by (simp add: sm_eval)

text \<open>
  Claim C8, amended.  When \<open>addEntry\<close> is called with type \<open>screen_ocr\<close> and a
  payload whose \<open>text_regions\<close> holds \<open>R \<ge> 1\<close> regions, the session's entries
  afterwards are the old entries followed by exactly \<open>R\<close> new ones, and all the new
  entries carry one and the same \<open>image_id\<close>.
\<close>

theorem multi_region_ocr_entries:
  assumes "data_text_regions data = Some regions" and "length regions = R" and "1 \<le> R"
  shows "\<exists>pushed imageId.
     sm_entries (addEntry env ''screen_ocr'' data sm) = sm_entries sm @ pushed \<and>
     length pushed = R \<and> (\<forall>e \<in> set pushed. image_id e = Some imageId)"
proof -
  from assms have ne: "regions \<noteq> []" by auto
  let ?imageId = "or_default (data_image_id data) (''img_'' @ show_nat (date_now env))"
  let ?pushed = "map (\<lambda>(index, region). region_entry env data ?imageId index region)
      (zip [0..<length regions] regions)"
  have "sm_entries (addEntry env ''screen_ocr'' data sm) = sm_entries sm @ ?pushed"
    by (rule addEntry_regions [OF assms(1) ne])
  moreover have "length ?pushed = R" using assms(2) by simp
  moreover have "\<forall>e \<in> set ?pushed. image_id e = Some ?imageId"
    by (auto simp: region_entry_def)
  ultimately show ?thesis by blast
qed

theorem multi_region_ocr_entries_witness:
  "data_text_regions (no_data\<lparr>data_text_regions := Some [region ''a'', region ''b'']\<rparr>) =
     Some [region ''a'', region ''b''] \<and>
   length [region ''a'', region ''b''] = 2 \<and> (1::nat) \<le> 2 \<and>
   (\<exists>pushed imageId.
      sm_entries (addEntry (env_at 5 0 SaveOk) ''screen_ocr''
        (no_data\<lparr>data_text_regions := Some [region ''a'', region ''b'']\<rparr>)
        (SessionManager_new (env_at 2 0 SaveOk))) =
      sm_entries (SessionManager_new (env_at 2 0 SaveOk)) @ pushed \<and>
      length pushed = 2 \<and> (\<forall>e \<in> set pushed. image_id e = Some imageId))"
proof -
  have h: "data_text_regions (no_data\<lparr>data_text_regions := Some [region ''a'', region ''b'']\<rparr>) =
     Some [region ''a'', region ''b'']"
    by (simp add: no_data_def)
  have l: "length [region ''a'', region ''b''] = 2" by simp
  have r: "(1::nat) \<le> 2" by simp
  from multi_region_ocr_entries [OF h l r, of "env_at 5 0 SaveOk" "SessionManager_new (env_at 2 0 SaveOk)"]
    h l r
  show ?thesis by blast
qed

text \<open>
  Claim C3 says that after any sequence of \<open>addEntry\<close> calls the entries are in
  call order and their ids are pairwise distinct.  The order holds
  (\<open>addEntries_entries\<close>), and the ids are distinct as long as no two calls read the
  same value of the clock (\<open>ids_distinct_clock\<close>).  But an id is only the clock
  reading followed by a random draw below 1000 (or by the region index), and nothing
  checks it against the ids already given.  Two subtitle calls in one millisecond that
  draw the same number get the same id; and so do two keyframes, which the keyframe
  handler adds back to back in one loop: with the clock at 5 and the draw 7 twice, both
  entries get the id \<open>img_txt_5_7\<close>, while they stand in call order.
\<close>

theorem addEntry_ids_clash:
  "\<not> distinct (map entry_id (sm_entries (addEntries
       [(env_at 1700000000000 417 SaveOk, ''subtitle'',
           no_data\<lparr>data_original_text := Some ''first''\<rparr>),
        (env_at 1700000000000 417 SaveOk, ''subtitle'',
           no_data\<lparr>data_original_text := Some ''second''\<rparr>)]
       (SessionManager_new (env_at 1600000000000 0 SaveOk))))) \<and>
   map entry_id (sm_entries (addEntries
       [(env_at 5 7 SaveOk, ''screen_ocr'',
           keyframe_payload \<lparr>kf_image_id = ''keyframe_3_0'',
             kf_image_path = ''sessions/images/a.jpg'', kf_timestamp = 0\<rparr>),
        (env_at 5 7 SaveOk, ''screen_ocr'',
           keyframe_payload \<lparr>kf_image_id = ''keyframe_4_3'',
             kf_image_path = ''sessions/images/b.jpg'', kf_timestamp = 3\<rparr>)]
       (SessionManager_new (env_at 2 0 SaveOk)))) = [''img_txt_5_7'', ''img_txt_5_7''] \<and>
   map image_id (sm_entries (addEntries
       [(env_at 5 7 SaveOk, ''screen_ocr'',
           keyframe_payload \<lparr>kf_image_id = ''keyframe_3_0'',
             kf_image_path = ''sessions/images/a.jpg'', kf_timestamp = 0\<rparr>),
        (env_at 5 7 SaveOk, ''screen_ocr'',
           keyframe_payload \<lparr>kf_image_id = ''keyframe_4_3'',
             kf_image_path = ''sessions/images/b.jpg'', kf_timestamp = 3\<rparr>)]
       (SessionManager_new (env_at 2 0 SaveOk)))) =
     [Some ''keyframe_3_0'', Some ''keyframe_4_3'']"
proof -
  have "\<not> distinct (map entry_id (sm_entries (addEntries
       [(env_at 1700000000000 417 SaveOk, ''subtitle'',
           no_data\<lparr>data_original_text := Some ''first''\<rparr>),
        (env_at 1700000000000 417 SaveOk, ''subtitle'',
           no_data\<lparr>data_original_text := Some ''second''\<rparr>)]
       (SessionManager_new (env_at 1600000000000 0 SaveOk)))))"
    by (simp add: addEntries_entries pushed_by_def addEntry_def single_entry_def autoSave_def
        SessionManager_new_def env_at_def no_data_def Let_def)
  then show ?thesis
    by (simp add: sm_eval keyframe_payload_def)
qed

subsection \<open>SessionManager: finalizeSession\<close>

lemma autoSave_effects:
  assumes "autoSaveEnabled sm"
  shows "sm_effects (autoSave env trigger sm) =
     sm_effects sm @
       [StorageSet (sm_sessionId sm) (getSessionData env sm),
        SaveSessionRequest (getSessionData env sm) (sm_sessionId sm) trigger] @
       (if save_resp env = SaveOk \<and> trigger \<and>
           \<not> (isPolling sm \<and> currentPollingSession sm = Some (sm_sessionId sm))
        then [SetInterval (sm_sessionId sm)] else [])"
  using assms
  by (cases "save_resp env") (simp_all add: autoSave_def pollResults_def Let_def)

lemma autoSave_polling:
  assumes "autoSaveEnabled sm"
  shows "isPolling (autoSave env trigger sm) = (isPolling sm \<or> (save_resp env = SaveOk \<and> trigger))"
    and "currentPollingSession (autoSave env trigger sm) =
      (if save_resp env = SaveOk \<and> trigger then Some (sm_sessionId sm)
       else currentPollingSession sm)"
    and "sm_sessionId (autoSave env trigger sm) = sm_sessionId sm"
  using assms
  by (cases "save_resp env"; auto simp: autoSave_def pollResults_def Let_def)+

text \<open>
  Claim C7, as stated: a finalized session with zero entries does not start polling.
  It fails: \<open>autoSave(true)\<close> itself starts the poller as soon as the backend answers
  ok to the triggering save, whatever the number of entries.
\<close>

theorem finalize_empty_session_polls:
  "sm_entries (SessionManager_new (env_at 5 0 SaveOk)) = [] \<and>
   isPolling (finalizeSession (env_at 5 0 SaveOk) (SessionManager_new (env_at 5 0 SaveOk))) \<and>
   SetInterval ''session_5'' \<in>
     set (sm_effects (finalizeSession (env_at 5 0 SaveOk) (SessionManager_new (env_at 5 0 SaveOk))))"
  by (simp add: sm_eval)

text \<open>
  Claim C7, amended.  \<open>finalizeSession\<close> (with autosave enabled, as the constructor
  sets it, and no poll of this session already running) writes the snapshot to local
  storage and sends it to the backend with the trigger flag set; it starts the result
  poller for the session if, and only if, the session has at least one entry or the
  backend answered ok to that triggering save.  At most one polling loop is started.
\<close>

theorem finalizeSession_saves_and_polls:
  assumes "autoSaveEnabled sm"
    and "\<not> (isPolling sm \<and> currentPollingSession sm = Some (sm_sessionId sm))"
  shows "sm_effects (finalizeSession env sm) =
       sm_effects sm @
         [StorageSet (sm_sessionId sm) (getSessionData env sm),
          SaveSessionRequest (getSessionData env sm) (sm_sessionId sm) True] @
         (if sm_entries sm \<noteq> [] \<or> save_resp env = SaveOk
          then [SetInterval (sm_sessionId sm)] else []) \<and>
     ((isPolling (finalizeSession env sm) \<and>
          currentPollingSession (finalizeSession env sm) = Some (sm_sessionId sm)) =
         (sm_entries sm \<noteq> [] \<or> save_resp env = SaveOk))"
proof -
  let ?sm1 = "autoSave env True sm"
  have fin: "finalizeSession env sm =
      (if sm_entries sm \<noteq> [] then pollResults (sm_sessionId sm) ?sm1 else ?sm1)"
    by (simp add: finalizeSession_def Let_def autoSave_polling(3) [OF assms(1)])
  have eff: "sm_effects ?sm1 = sm_effects sm @
       [StorageSet (sm_sessionId sm) (getSessionData env sm),
        SaveSessionRequest (getSessionData env sm) (sm_sessionId sm) True] @
       (if save_resp env = SaveOk then [SetInterval (sm_sessionId sm)] else [])"
    using autoSave_effects [OF assms(1), of env True] assms(2) by simp
  have pol: "isPolling ?sm1 = (isPolling sm \<or> save_resp env = SaveOk)"
    "currentPollingSession ?sm1 =
      (if save_resp env = SaveOk then Some (sm_sessionId sm) else currentPollingSession sm)"
    using autoSave_polling [OF assms(1), of env True] by simp_all
  have "sm_effects (finalizeSession env sm) =
       sm_effects sm @
         [StorageSet (sm_sessionId sm) (getSessionData env sm),
          SaveSessionRequest (getSessionData env sm) (sm_sessionId sm) True] @
         (if sm_entries sm \<noteq> [] \<or> save_resp env = SaveOk
          then [SetInterval (sm_sessionId sm)] else [])"
    using assms(2) by (auto simp: fin eff pol pollResults_def)
  moreover have "(isPolling (finalizeSession env sm) \<and>
          currentPollingSession (finalizeSession env sm) = Some (sm_sessionId sm)) =
         (sm_entries sm \<noteq> [] \<or> save_resp env = SaveOk)"
    using assms(2) by (auto simp: fin pol pollResults_def)
  ultimately show ?thesis by blast
qed

theorem finalizeSession_saves_and_polls_witness:
  "autoSaveEnabled (SessionManager_new (env_at 5 0 SaveOk)) \<and>
   \<not> (isPolling (SessionManager_new (env_at 5 0 SaveOk)) \<and>
      currentPollingSession (SessionManager_new (env_at 5 0 SaveOk)) =
        Some (sm_sessionId (SessionManager_new (env_at 5 0 SaveOk)))) \<and>
   sm_effects (finalizeSession (env_at 7 0 SaveNotOk) (SessionManager_new (env_at 5 0 SaveOk))) =
     [StorageSet ''session_5''
        (getSessionData (env_at 7 0 SaveNotOk) (SessionManager_new (env_at 5 0 SaveOk))),
      SaveSessionRequest
        (getSessionData (env_at 7 0 SaveNotOk) (SessionManager_new (env_at 5 0 SaveOk)))
        ''session_5'' True] \<and>
   \<not> (isPolling (finalizeSession (env_at 7 0 SaveNotOk) (SessionManager_new (env_at 5 0 SaveOk))) \<and>
      currentPollingSession
        (finalizeSession (env_at 7 0 SaveNotOk) (SessionManager_new (env_at 5 0 SaveOk))) =
      Some ''session_5'')"
proof -
  let ?sm = "SessionManager_new (env_at 5 0 SaveOk)"
  let ?env = "env_at 7 0 SaveNotOk"
  have a: "autoSaveEnabled ?sm" by (simp add: SessionManager_new_def)
  have p: "\<not> (isPolling ?sm \<and> currentPollingSession ?sm = Some (sm_sessionId ?sm))"
    by (simp add: SessionManager_new_def)
  have i: "sm_sessionId ?sm = ''session_5''" by (simp add: SessionManager_new_def env_at_def show_small)
  have e: "sm_entries ?sm = []" "sm_effects ?sm = []" by (simp_all add: SessionManager_new_def)
  have r: "save_resp ?env \<noteq> SaveOk" by (simp add: env_at_def)
  from finalizeSession_saves_and_polls [OF a p, of ?env] a p show ?thesis
    by (simp add: i e r)
qed

subsection \<open>The result pollers\<close>


lemma polling_done: "status st \<noteq> Polling \<Longrightarrow> polling m responses st = st"
  by (cases responses) simp_all

lemma polling_not_found:
  assumes "status st = Polling" and "attempts st \<le> m + 1"
  shows "status (polling m (replicate n NotFound) st) =
     (if m + 2 \<le> attempts st + n then ErrorShown ''Timed out waiting for results.''
      else Polling)"
  using assms
proof (induction n arbitrary: st)
  case 0
  then show ?case by simp
next
  case (Suc n)
  show ?case
  proof (cases "attempts st > m")
    case True
    then have "status (poll m NotFound st) = ErrorShown ''Timed out waiting for results.''"
      by (simp add: poll_def)
    with Suc.prems True show ?thesis by (simp add: polling_done)
  next
    case False
    then have "status (poll m NotFound st) = Polling"
      and "attempts (poll m NotFound st) = attempts st + 1"
      using Suc.prems by (simp_all add: poll_def)
    with Suc.IH [of "poll m NotFound st"] Suc.prems False show ?thesis by simp
  qed
qed

lemma startPolling_not_found:
  "status (startPolling m (replicate n NotFound)) =
     (if m + 2 \<le> n then ErrorShown ''Timed out waiting for results.'' else Polling)"
  using polling_not_found [of "\<lparr>attempts = 0, status = Polling, timeouts = []\<rparr>" m n]
  by (simp add: startPolling_def)

lemma pollTick_not_found:
  assumes "sm_sessionId sm = sid"
  shows "pollTick sid NotFound (sm, lp) =
     (if loop_attempts lp + 1 \<ge> pollResults_maxAttempts
      then (sm\<lparr>isPolling := False\<rparr>,
            lp\<lparr>loop_attempts := loop_attempts lp + 1, timed_out := True, interval_set := False\<rparr>)
      else (sm, lp\<lparr>loop_attempts := loop_attempts lp + 1\<rparr>))"
  using assms by (simp add: pollTick_def poll_ceiling_def poll_stop_def Let_def)

lemma pollTicks_not_found:
  assumes "sm_sessionId sm = sid" and "interval_set lp" and "\<not> timed_out lp"
    and "loop_attempts lp < pollResults_maxAttempts"
  shows "timed_out (snd (pollTicks sid (replicate n NotFound) (sm, lp))) =
       (pollResults_maxAttempts \<le> loop_attempts lp + n) \<and>
     interval_set (snd (pollTicks sid (replicate n NotFound) (sm, lp))) =
       (loop_attempts lp + n < pollResults_maxAttempts)"
  using assms
proof (induction n arbitrary: sm lp)
  case 0
  then show ?case by simp
next
  case (Suc n)
  show ?case
  proof (cases "loop_attempts lp + 1 \<ge> pollResults_maxAttempts")
    case True
    have "pollTicks sid (replicate n NotFound) (pollTick sid NotFound (sm, lp)) =
        pollTick sid NotFound (sm, lp)"
      using True Suc.prems(1) by (cases n) (simp_all add: pollTick_not_found)
    with True Suc.prems show ?thesis by (simp add: pollTick_not_found)
  next
    case False
    with Suc.IH [of sm "lp\<lparr>loop_attempts := loop_attempts lp + 1\<rparr>"] Suc.prems
    show ?thesis by (simp add: pollTick_not_found)
  qed
qed

lemma pollResults_times_out_at_max:
  "timed_out (snd (pollTicks (sm_sessionId sm) (replicate n NotFound) (sm, new_loop))) =
     (pollResults_maxAttempts \<le> n)"
  using pollTicks_not_found [of sm "sm_sessionId sm" new_loop n]
  by (simp add: new_loop_def pollResults_maxAttempts_def)

text \<open>
  Claim C1 says that a poller reports its time-out after exactly \<open>max_attempts\<close>
  consecutive not-ready (404) responses.  \<open>SessionManager.pollResults\<close> does so
  (\<open>pollResults_times_out_at_max\<close>), but \<open>startPolling\<close> of the results
  page and of the popup compares \<open>attempts++ > maxAttempts\<close>: after 30 (150) and
  after 31 (151) consecutive 404 responses the page is still polling, and the time-out
  is shown on response 32 (152), that is on \<open>maxAttempts + 2\<close>.
\<close>

theorem startPolling_times_out_late:
  "status (startPolling_results_page (replicate 30 NotFound)) = Polling \<and>
   status (startPolling_results_page (replicate 31 NotFound)) = Polling \<and>
   status (startPolling_results_page (replicate 32 NotFound)) =
     ErrorShown ''Timed out waiting for results.'' \<and>
   status (startPolling_popup (replicate 150 NotFound)) = Polling \<and>
   status (startPolling_popup (replicate 151 NotFound)) = Polling \<and>
   status (startPolling_popup (replicate 152 NotFound)) =
     ErrorShown ''Timed out waiting for results.''"
  by (simp add: startPolling_results_page_def startPolling_popup_def startPolling_not_found)

subsection \<open>The service worker\<close>


lemma autoSaveToBackend_state [simp]:
  "state (autoSaveToBackend stamp tab trigger w) = state w"
  by (simp add: autoSaveToBackend_def emit_def split: option.splits)

lemma emit_state [simp]: "state (emit e w) = state w"
  by (simp add: emit_def)

lemma emit_effects [simp]: "effects (emit e w) = effects w @ [e]"
  by (simp add: emit_def)

lemma autoSaveToBackend_effects:
  "effects (autoSaveToBackend stamp tab trigger w) =
     (case state w tab of
        None \<Rightarrow> effects w
      | Some session \<Rightarrow> effects w @
          [SaveSession \<lparr>sd_session_id = sessionId session, sd_start_time = startTime session,
             sd_entries = entries session, sd_last_updated = stamp\<rparr> (sessionId session) trigger])"
  by (simp add: autoSaveToBackend_def split: option.splits)

lemma stopPipeline_live:
  assumes "state w tab = Some first"
  shows "fst (stopPipeline stamp tab w) = Some (sessionId first)"
    and "state (snd (stopPipeline stamp tab w)) = (state w)(tab := None)"
    and "effects (snd (stopPipeline stamp tab w)) = effects w @
      [RuntimeSend (STOP_AUDIO tab),
       SaveSession \<lparr>sd_session_id = sessionId first, sd_start_time = startTime first,
          sd_entries = entries first, sd_last_updated = stamp\<rparr> (sessionId first) True,
       TabSend tab PIPELINE_STOPPED]"
  using assms
  by (simp_all add: stopPipeline_def stopPipeline_begin_def stopPipeline_finish_def Let_def
      autoSaveToBackend_effects)

lemma announce_start_state [simp]: "state (snd (announce_start env tab w)) = state w"
  by (simp add: announce_start_def split: option.splits)

lemma announce_start_effects:
  "\<exists>more. effects (snd (announce_start env tab w)) = effects w @ more \<and>
     (\<forall>d i. SaveSession d i True \<notin> set more)"
  by (auto simp: announce_start_def autoSaveToBackend_effects split: option.splits)

lemma startPipeline_state:
  assumes "tab \<noteq> 0"
  shows "state (snd (startPipeline env (Some tab) opts w)) =
     (state w)(tab \<mapsto> fresh_state env tab opts)"
proof (cases "state w tab")
  case None
  then show ?thesis using assms
    by (auto simp: startPipeline_def tab_falsy_def Let_def fresh_state_def
        split: outcome.splits)
next
  case (Some first)
  then show ?thesis using assms
    by (auto simp: startPipeline_def tab_falsy_def Let_def fresh_state_def
        stopPipeline_live [OF Some] split: outcome.splits)
qed

lemma startPipeline_stream_rejected:
  assumes "tab \<noteq> 0" and "opt_audioEnabled opts" and "media_stream_id env = Rejected message"
    and "ensure_offscreen env = Resolved u"
  shows "fst (startPipeline env (Some tab) opts w) = StartError (or_default message ''offscreen_failed'')"
  using assms by (simp add: startPipeline_def tab_falsy_def Let_def)

lemma startPipeline_restart_effects:
  assumes "tab \<noteq> 0" and "state w tab = Some first"
  shows "\<exists>more. effects (snd (startPipeline env (Some tab) opts w)) =
      effects w @
      [RuntimeSend (STOP_AUDIO tab),
       SaveSession \<lparr>sd_session_id = sessionId first, sd_start_time = startTime first,
          sd_entries = entries first, sd_last_updated = stop_iso env\<rparr> (sessionId first) True,
       TabSend tab PIPELINE_STOPPED, Wait 500] @ more \<and>
      (\<forall>d i. SaveSession d i True \<notin> set more)"
proof -
  let ?w1 = "emit (Wait 500) (snd (stopPipeline (stop_iso env) tab w))"
  let ?w2 = "?w1\<lparr>state := (state ?w1)(tab \<mapsto> fresh_state env tab opts)\<rparr>"
  have e2: "effects ?w2 = effects w @
      [RuntimeSend (STOP_AUDIO tab),
       SaveSession \<lparr>sd_session_id = sessionId first, sd_start_time = startTime first,
          sd_entries = entries first, sd_last_updated = stop_iso env\<rparr> (sessionId first) True,
       TabSend tab PIPELINE_STOPPED, Wait 500]"
    by (simp add: stopPipeline_live [OF assms(2)])
  have cases: "snd (startPipeline env (Some tab) opts w) = ?w2 \<or>
      (\<exists>streamId. snd (startPipeline env (Some tab) opts w) =
         snd (announce_start env tab (emit (RuntimeSend (START_AUDIO tab streamId)) ?w2))) \<or>
      snd (startPipeline env (Some tab) opts w) = snd (announce_start env tab ?w2)"
    using assms
    by (auto simp: startPipeline_def tab_falsy_def Let_def fresh_state_def split: outcome.splits)
  then show ?thesis
  proof (elim disjE exE)
    assume "snd (startPipeline env (Some tab) opts w) = ?w2"
    with e2 show ?thesis by simp
  next
    fix streamId
    assume a: "snd (startPipeline env (Some tab) opts w) =
         snd (announce_start env tab (emit (RuntimeSend (START_AUDIO tab streamId)) ?w2))"
    from announce_start_effects [of env tab "emit (RuntimeSend (START_AUDIO tab streamId)) ?w2"]
    obtain more where m: "effects (snd (announce_start env tab
          (emit (RuntimeSend (START_AUDIO tab streamId)) ?w2))) =
        effects (emit (RuntimeSend (START_AUDIO tab streamId)) ?w2) @ more"
      and n: "\<forall>d i. SaveSession d i True \<notin> set more" by blast
    have "effects (snd (startPipeline env (Some tab) opts w)) =
        (effects w @
      [RuntimeSend (STOP_AUDIO tab),
       SaveSession \<lparr>sd_session_id = sessionId first, sd_start_time = startTime first,
          sd_entries = entries first, sd_last_updated = stop_iso env\<rparr> (sessionId first) True,
       TabSend tab PIPELINE_STOPPED, Wait 500]) @ (RuntimeSend (START_AUDIO tab streamId) # more)"
      unfolding a m emit_effects e2 by simp
    moreover from n have "\<forall>d i. SaveSession d i True \<notin> set (RuntimeSend (START_AUDIO tab streamId) # more)"
      by simp
    ultimately show ?thesis by (metis append_assoc)
  next
    assume a: "snd (startPipeline env (Some tab) opts w) = snd (announce_start env tab ?w2)"
    from announce_start_effects [of env tab ?w2]
    obtain more where m: "effects (snd (announce_start env tab ?w2)) = effects ?w2 @ more"
      and n: "\<forall>d i. SaveSession d i True \<notin> set more" by blast
    from a m e2 n show ?thesis by (metis append_assoc)
  qed
qed

lemma sendToBackend_accepts:
  assumes "tab \<noteq> 0" and "state w tab = Some session"
    and "truthy (stt_original_text data) \<or> truthy (stt_translated_text data)"
  shows "state (sendToBackend env (SttJson data) base64Audio (Some tab) w) =
       (state w)(tab \<mapsto> session\<lparr>entries := entries session @ [subtitle_entry env data]\<rparr>)"
  using assms by (auto simp: sendToBackend_def stt_answered_def Let_def)

lemmas worker_eval = startPipeline_def stopPipeline_def stopPipeline_begin_def
  stopPipeline_finish_def sendToBackend_request_def announce_start_def autoSaveToBackend_def
  sendToBackend_def stt_answered_def emit_def fresh_state_def normalized_options_def
  tab_falsy_def new_worker_def start_env_at_def audio_options_def chunk_env_at_def
  no_speech_def or_default_def or_else_def truthy_def Let_def show_small

text \<open>
  Claim C2 says that when the media stream cannot be acquired the start is aborted
  with a structured error and no PipelineState of the tab stays registered.  The error
  is returned, but \<open>startPipeline\<close> has already stored the new state and returns
  from the \<open>catch\<close> block without deleting it: on an empty registry, a start for
  tab 7 with audio enabled whose \<open>getMediaStreamId\<close> fails answers with the error
  and leaves the state of session \<open>session_5\<close> registered for tab 7, so that a
  later audio chunk for the tab passes the guard of \<open>sendToBackend\<close> and is sent
  to the speech-to-text service.
\<close>

theorem failed_stream_leaves_state:
  "fst (startPipeline (start_env_at 5 (Rejected (Some ''Tab cannot be captured'')))
         (Some 7) audio_options new_worker) = StartError ''Tab cannot be captured'' \<and>
   state (snd (startPipeline (start_env_at 5 (Rejected (Some ''Tab cannot be captured'')))
         (Some 7) audio_options new_worker)) 7 =
     Some (fresh_state (start_env_at 5 (Rejected (Some ''Tab cannot be captured''))) 7
             audio_options) \<and>
   sessionId (fresh_state (start_env_at 5 (Rejected (Some ''Tab cannot be captured''))) 7
             audio_options) = ''session_5'' \<and>
   state (sendToBackend (chunk_env_at 6 1) SttThrows ''AAAA'' (Some 7)
       (snd (startPipeline (start_env_at 5 (Rejected (Some ''Tab cannot be captured'')))
         (Some 7) audio_options new_worker))) 7 \<noteq> None \<and>
   effects (sendToBackend (chunk_env_at 6 1) SttThrows ''AAAA'' (Some 7)
       (snd (startPipeline (start_env_at 5 (Rejected (Some ''Tab cannot be captured'')))
         (Some 7) audio_options new_worker))) = [SpeechToText ''AAAA'']"
  by (simp add: worker_eval)

text \<open>
  Claim C6.  When \<open>startPipeline\<close> is called for a tab that has a PipelineState,
  the registry afterwards holds exactly one state for the tab, the fresh one, and the
  states of the other tabs are untouched; the worker first sends \<open>STOP_AUDIO\<close>,
  saves the first session with the trigger flag set, announces the stop and waits 500
  ms, and nothing that follows is a triggering save; the first state is deleted by
  the stop, and the call equals a start on the worker left by that stop and delay.
\<close>

theorem restart_stops_first_session:
  assumes "tab \<noteq> 0" and "state w tab = Some first"
  shows "state (snd (startPipeline env (Some tab) opts w)) =
       (state w)(tab \<mapsto> fresh_state env tab opts) \<and>
     dom (state (snd (startPipeline env (Some tab) opts w))) = dom (state w) \<and>
     (\<exists>more. effects (snd (startPipeline env (Some tab) opts w)) =
        effects w @
        [RuntimeSend (STOP_AUDIO tab),
         SaveSession \<lparr>sd_session_id = sessionId first, sd_start_time = startTime first,
            sd_entries = entries first, sd_last_updated = stop_iso env\<rparr> (sessionId first) True,
         TabSend tab PIPELINE_STOPPED, Wait 500] @ more \<and>
        (\<forall>d i. SaveSession d i True \<notin> set more)) \<and>
     state (snd (stopPipeline (stop_iso env) tab w)) tab = None \<and>
     startPipeline env (Some tab) opts w =
       startPipeline env (Some tab) opts
         (emit (Wait 500) (snd (stopPipeline (stop_iso env) tab w)))"
proof -
  have st: "state (snd (startPipeline env (Some tab) opts w)) =
       (state w)(tab \<mapsto> fresh_state env tab opts)"
    by (rule startPipeline_state [OF assms(1)])
  from assms(2) have "tab \<in> dom (state w)" by auto
  then have dm: "dom (state (snd (startPipeline env (Some tab) opts w))) = dom (state w)"
    unfolding st by auto
  have gone: "state (snd (stopPipeline (stop_iso env) tab w)) tab = None"
    by (simp add: stopPipeline_live(2) [OF assms(2)])
  have again: "startPipeline env (Some tab) opts w =
       startPipeline env (Some tab) opts
         (emit (Wait 500) (snd (stopPipeline (stop_iso env) tab w)))"
    using assms gone by (simp add: startPipeline_def tab_falsy_def Let_def)
  from st dm gone again startPipeline_restart_effects [OF assms, of env opts]
  show ?thesis by blast
qed

theorem restart_stops_first_session_witness:
  "(7::nat) \<noteq> 0 \<and>
   state (snd (startPipeline (start_env_at 5 (Resolved ''stream-1'')) (Some 7) audio_options
       new_worker)) 7 =
     Some (fresh_state (start_env_at 5 (Resolved ''stream-1'')) 7 audio_options) \<and>
   state (snd (startPipeline (start_env_at 9 (Resolved ''stream-2'')) (Some 7) audio_options
       (snd (startPipeline (start_env_at 5 (Resolved ''stream-1'')) (Some 7) audio_options
          new_worker)))) =
     [7 \<mapsto> fresh_state (start_env_at 9 (Resolved ''stream-2'')) 7 audio_options] \<and>
   sessionId (fresh_state (start_env_at 9 (Resolved ''stream-2'')) 7 audio_options) =
     ''session_9'' \<and>
   take 4 (drop 3 (effects (snd (startPipeline (start_env_at 9 (Resolved ''stream-2'')) (Some 7)
       audio_options
       (snd (startPipeline (start_env_at 5 (Resolved ''stream-1'')) (Some 7) audio_options
          new_worker)))))) =
     [RuntimeSend (STOP_AUDIO 7),
      SaveSession \<lparr>sd_session_id = ''session_5'', sd_start_time = ''2024-01-01T00:00:10.000Z'',
         sd_entries = [], sd_last_updated = ''2024-01-01T00:00:09.000Z''\<rparr> ''session_5'' True,
      TabSend 7 PIPELINE_STOPPED, Wait 500]"
proof -
  let ?e1 = "start_env_at 5 (Resolved ''stream-1'')"
  let ?e2 = "start_env_at 9 (Resolved ''stream-2'')"
  let ?w1 = "snd (startPipeline ?e1 (Some 7) audio_options new_worker)"
  have t: "(7::nat) \<noteq> 0" by simp
  have s1: "state ?w1 7 = Some (fresh_state ?e1 7 audio_options)"
    by (simp add: startPipeline_state)
  have e1: "effects ?w1 =
     [RuntimeSend (START_AUDIO 7 ''stream-1''),
      TabSend 7 (PIPELINE_STARTED (normalized_options audio_options)),
      SaveSession \<lparr>sd_session_id = ''session_5'', sd_start_time = ''2024-01-01T00:00:10.000Z'',
         sd_entries = [], sd_last_updated = ''2024-01-01T00:00:10.000Z''\<rparr> ''session_5'' False]"
    by (simp add: worker_eval)
  have f: "sessionId (fresh_state ?e1 7 audio_options) = ''session_5''"
    "startTime (fresh_state ?e1 7 audio_options) = ''2024-01-01T00:00:10.000Z''"
    "entries (fresh_state ?e1 7 audio_options) = []"
    "sessionId (fresh_state ?e2 7 audio_options) = ''session_9''"
    "stop_iso ?e2 = ''2024-01-01T00:00:09.000Z''"
    by (simp_all add: fresh_state_def start_env_at_def show_small)
  have m: "state ?w1 = [7 \<mapsto> fresh_state ?e1 7 audio_options]"
    by (simp add: startPipeline_state new_worker_def)
  from restart_stops_first_session [OF t s1, of ?e2 audio_options]
  have r: "state (snd (startPipeline ?e2 (Some 7) audio_options ?w1)) =
      (state ?w1)(7 \<mapsto> fresh_state ?e2 7 audio_options)"
    and "\<exists>more. effects (snd (startPipeline ?e2 (Some 7) audio_options ?w1)) =
        effects ?w1 @
        [RuntimeSend (STOP_AUDIO 7),
         SaveSession \<lparr>sd_session_id = ''session_5'', sd_start_time = ''2024-01-01T00:00:10.000Z'',
            sd_entries = [], sd_last_updated = ''2024-01-01T00:00:09.000Z''\<rparr> ''session_5'' True,
         TabSend 7 PIPELINE_STOPPED, Wait 500] @ more"
    unfolding f by blast+
  then obtain more where "effects (snd (startPipeline ?e2 (Some 7) audio_options ?w1)) =
        effects ?w1 @
        [RuntimeSend (STOP_AUDIO 7),
         SaveSession \<lparr>sd_session_id = ''session_5'', sd_start_time = ''2024-01-01T00:00:10.000Z'',
            sd_entries = [], sd_last_updated = ''2024-01-01T00:00:09.000Z''\<rparr> ''session_5'' True,
         TabSend 7 PIPELINE_STOPPED, Wait 500] @ more" by blast
  then have ef: "take 4 (drop 3 (effects (snd (startPipeline ?e2 (Some 7) audio_options ?w1)))) =
        [RuntimeSend (STOP_AUDIO 7),
         SaveSession \<lparr>sd_session_id = ''session_5'', sd_start_time = ''2024-01-01T00:00:10.000Z'',
            sd_entries = [], sd_last_updated = ''2024-01-01T00:00:09.000Z''\<rparr> ''session_5'' True,
         TabSend 7 PIPELINE_STOPPED, Wait 500]"
    unfolding e1 by simp
  from r have st: "state (snd (startPipeline ?e2 (Some 7) audio_options ?w1)) =
      [7 \<mapsto> fresh_state ?e2 7 audio_options]"
    unfolding m by simp
  from t s1 st f(4) ef show ?thesis by blast
qed

text \<open>
  Claim C10.  When \<open>sendToBackend\<close> is called for a tab id that is missing or has
  no PipelineState, or the speech-to-text request fails (rejected, not ok, or no
  JSON), or the answer carries neither a non-empty \<open>original_text\<close> nor a
  non-empty \<open>translated_text\<close>, then the registry, and with it every entry list,
  is unchanged, and the worker has done nothing or only sent the speech-to-text
  request: no save request and no message to the tab.
\<close>

theorem sendToBackend_rejects:
  assumes "tab_falsy tabId0 \<or> (\<exists>tab. tabId0 = Some tab \<and> state w tab = None) \<or>
      res = SttThrows \<or> (\<exists>code. res = SttNotOk code) \<or> res = SttBadJson \<or>
      (\<exists>data. res = SttJson data \<and> \<not> truthy (stt_original_text data) \<and>
         \<not> truthy (stt_translated_text data))"
  shows "state (sendToBackend env res base64Audio tabId0 w) = state w \<and>
     (effects (sendToBackend env res base64Audio tabId0 w) = effects w \<or>
      effects (sendToBackend env res base64Audio tabId0 w) =
        effects w @ [SpeechToText base64Audio])"
  using assms
  by (auto simp: sendToBackend_def stt_answered_def tab_falsy_def
      split: option.splits stt_response.splits)

theorem sendToBackend_rejects_witness:
  "state new_worker 7 = None \<and>
   sendToBackend (chunk_env_at 6 1) (SttJson no_speech) ''AAAA'' (Some 7) new_worker = new_worker \<and>
   state (snd (startPipeline (start_env_at 5 (Resolved ''stream-1'')) (Some 7) audio_options
       new_worker)) 7 \<noteq> None \<and>
   \<not> truthy (stt_original_text no_speech) \<and> \<not> truthy (stt_translated_text no_speech) \<and>
   state (sendToBackend (chunk_env_at 6 1) (SttJson no_speech) ''AAAA'' (Some 7)
       (snd (startPipeline (start_env_at 5 (Resolved ''stream-1'')) (Some 7) audio_options
          new_worker))) =
     state (snd (startPipeline (start_env_at 5 (Resolved ''stream-1'')) (Some 7) audio_options
          new_worker)) \<and>
   effects (sendToBackend (chunk_env_at 6 1) (SttJson no_speech) ''AAAA'' (Some 7)
       (snd (startPipeline (start_env_at 5 (Resolved ''stream-1'')) (Some 7) audio_options
          new_worker))) =
     effects (snd (startPipeline (start_env_at 5 (Resolved ''stream-1'')) (Some 7) audio_options
          new_worker)) @ [SpeechToText ''AAAA''] \<and>
   state (sendToBackend (chunk_env_at 6 1) (SttNotOk 500) ''AAAA'' (Some 7)
       (snd (startPipeline (start_env_at 5 (Resolved ''stream-1'')) (Some 7) audio_options
          new_worker))) =
     state (snd (startPipeline (start_env_at 5 (Resolved ''stream-1'')) (Some 7) audio_options
          new_worker))"
proof -
  let ?w1 = "snd (startPipeline (start_env_at 5 (Resolved ''stream-1'')) (Some 7) audio_options
       new_worker)"
  let ?env = "chunk_env_at 6 1"
  have n: "state new_worker 7 = None" by (simp add: new_worker_def)
  have l: "state ?w1 7 \<noteq> None" by (simp add: startPipeline_state)
  have q: "\<not> truthy (stt_original_text no_speech)" "\<not> truthy (stt_translated_text no_speech)"
    by (simp_all add: no_speech_def truthy_def)
  from n sendToBackend_rejects [of "Some 7" new_worker "SttJson no_speech" ?env "''AAAA''"]
  have a: "state (sendToBackend ?env (SttJson no_speech) ''AAAA'' (Some 7) new_worker) =
      state new_worker" by blast
  have a': "sendToBackend ?env (SttJson no_speech) ''AAAA'' (Some 7) new_worker = new_worker"
    using n by (simp add: sendToBackend_def)
  from q sendToBackend_rejects [of "Some 7" ?w1 "SttJson no_speech" ?env "''AAAA''"]
  have b: "state (sendToBackend ?env (SttJson no_speech) ''AAAA'' (Some 7) ?w1) = state ?w1"
    by blast
  have b': "effects (sendToBackend ?env (SttJson no_speech) ''AAAA'' (Some 7) ?w1) =
      effects ?w1 @ [SpeechToText ''AAAA'']"
    using l q by (simp add: sendToBackend_def stt_answered_def)
  from sendToBackend_rejects [of "Some 7" ?w1 "SttNotOk 500" ?env "''AAAA''"]
  have c: "state (sendToBackend ?env (SttNotOk 500) ''AAAA'' (Some 7) ?w1) = state ?w1"
    by blast
  from n a' l q b b' c show ?thesis by blast
qed

subsection \<open>The audio chunk recorder\<close>


lemma step_keeps_stopping:
  assumes "isStopping s" and "\<not> is_start e"
  shows "isStopping (offscreen_step s e)"
    and "targetTabId (offscreen_step s e) = targetTabId s"
  using assms
  by (cases e; simp add: stop_audio_def timer_fires_def ondataavailable_def onstop_def
      base64_ready_def Let_def split: list.splits)+

lemma step_after_stop:
  assumes "isStopping s" and "\<not> is_start e"
  shows "(encoding (offscreen_step s e) = encoding s \<and> sent (offscreen_step s e) = sent s) \<or>
     (\<exists>blob. encoding s = blob # encoding (offscreen_step s e) \<and>
        sent (offscreen_step s e) = sent s @ [AUDIO_CHUNK blob (targetTabId s)])"
  using assms
  by (cases e; simp add: stop_audio_def timer_fires_def ondataavailable_def onstop_def
      base64_ready_def Let_def split: list.splits)

lemma run_after_stop:
  assumes "isStopping s" and "\<forall>e \<in> set events. \<not> is_start e"
  shows "\<exists>k \<le> length (encoding s).
     encoding (offscreen_run s events) = drop k (encoding s) \<and>
     sent (offscreen_run s events) =
       sent s @ map (\<lambda>blob. AUDIO_CHUNK blob (targetTabId s)) (take k (encoding s))"
  using assms
proof (induction events arbitrary: s)
  case Nil
  show ?case by (rule exI [of _ 0]) (simp add: offscreen_run_def)
next
  case (Cons e events)
  let ?s1 = "offscreen_step s e"
  from Cons.prems have ne: "\<not> is_start e" and rest: "\<forall>e \<in> set events. \<not> is_start e"
    by simp_all
  have st: "isStopping ?s1" and tb: "targetTabId ?s1 = targetTabId s"
    using step_keeps_stopping [OF Cons.prems(1) ne] by simp_all
  from Cons.IH [OF st rest] obtain k where k: "k \<le> length (encoding ?s1)"
    and en: "encoding (offscreen_run ?s1 events) = drop k (encoding ?s1)"
    and se: "sent (offscreen_run ?s1 events) =
       sent ?s1 @ map (\<lambda>blob. AUDIO_CHUNK blob (targetTabId ?s1)) (take k (encoding ?s1))"
    by blast
  have run: "offscreen_run s (e # events) = offscreen_run ?s1 events"
    by (simp add: offscreen_run_def)
  from step_after_stop [OF Cons.prems(1) ne] show ?case
  proof (elim disjE exE conjE)
    assume "encoding ?s1 = encoding s" and "sent ?s1 = sent s"
    with k en se tb show ?thesis unfolding run by auto
  next
    fix blob
    assume b: "encoding s = blob # encoding ?s1"
      and s1: "sent ?s1 = sent s @ [AUDIO_CHUNK blob (targetTabId s)]"
    show ?thesis
    proof (rule exI [of _ "Suc k"], intro conjI)
      show "Suc k \<le> length (encoding s)" using k b by simp
      show "encoding (offscreen_run s (e # events)) = drop (Suc k) (encoding s)"
        unfolding run en using b by simp
      show "sent (offscreen_run s (e # events)) =
          sent s @ map (\<lambda>blob. AUDIO_CHUNK blob (targetTabId s)) (take (Suc k) (encoding s))"
        unfolding run se s1 tb using b by simp
    qed
  qed
qed

lemma stop_audio_fields:
  "isStopping (stop_audio s)" "encoding (stop_audio s) = encoding s"
  "sent (stop_audio s) = sent s" "targetTabId (stop_audio s) = targetTabId s"
  "chunks (stop_audio s) = []"
  by (simp_all add: stop_audio_def Let_def)

lemma sent_after_stop:
  assumes "\<forall>e \<in> set events. \<not> is_start e"
  shows "\<exists>k \<le> length (encoding s).
     sent (offscreen_run s (StopAudio # events)) =
       sent s @ map (\<lambda>blob. AUDIO_CHUNK blob (targetTabId s)) (take k (encoding s))"
proof -
  have "offscreen_run s (StopAudio # events) = offscreen_run (stop_audio s) events"
    by (simp add: offscreen_run_def)
  with run_after_stop [OF stop_audio_fields(1) assms, of s] show ?thesis
    by (auto simp: stop_audio_fields)
qed

lemma sendToBackend_closed:
  "state w tab = None \<Longrightarrow> sendToBackend env res payload (Some tab) w = w"
  by (simp add: sendToBackend_def)

lemma sendToBackend_phases:
  "sendToBackend env res base64Audio tabId0 w =
     (case sendToBackend_request base64Audio tabId0 w of
        (None, w1) \<Rightarrow> w1
      | (Some tab, w1) \<Rightarrow> stt_answered env res tab w1)"
  by (simp add: sendToBackend_def sendToBackend_request_def split: option.splits)

lemmas offscreen_eval = offscreen_run_def start_audio_def stop_audio_def timer_fires_def
  ondataavailable_def onstop_def base64_ready_def new_offscreen_def truthy_def Let_def

lemma recording_offscreen_fields:
  "recording_offscreen =
     \<lparr>isStopping = False, recorder = Some Recording, timer_set = True, chunks = [''abc''],
      targetTabId = Some 7, currentStream = Some ''stream-1'', encoding = [],
      stops_issued = 0, sent = []\<rparr>"
  by (simp add: recording_offscreen_def offscreen_eval)

text \<open>
  Claim C4 says that a chunk in flight when the stop is requested is never transcribed
  and never appended.  The flag does keep back what is buffered or still being recorded
  when \<open>STOP_AUDIO\<close> is handled (\<open>sent_after_stop\<close>: what is sent after the stop
  was complete before it).  But \<open>onstop\<close> reads the flag only before it awaits the
  base64 encoding, and \<open>stopPipeline\<close> deletes the state of the tab only after it has
  awaited the final save.  Take the recorder running for tab 7 and a rotation whose
  \<open>onstop\<close> has just started the encoding of the chunk \<open>abcde\<close>; the worker begins
  \<open>stopPipeline\<close> for session \<open>session_5\<close>, the offscreen document handles
  \<open>STOP_AUDIO\<close>, and then the encoding completes.  The chunk is sent after the stop,
  passes the guard of \<open>sendToBackend\<close> because the state is still registered, and is
  sent to the speech-to-text service.  When that service answers before the final save
  does, the subtitle is appended to the session that was already saved for the last
  time, and saved again without the trigger; when the save answers first, the chunk has
  still been transcribed, and only the append fails on the deleted state.
\<close>

theorem chunk_encoded_during_stop_is_transcribed:
  "sent (offscreen_run recording_offscreen
     [DataAvailable ''de'', RecorderStopped, StopAudio]) = [] \<and>
   isStopping (offscreen_run recording_offscreen
     [DataAvailable ''de'', RecorderStopped, StopAudio]) \<and>
   sent (offscreen_run recording_offscreen
     [DataAvailable ''de'', RecorderStopped, StopAudio, Base64Ready]) =
     [AUDIO_CHUNK ''abcde'' (Some 7)] \<and>
   fst (stopPipeline_begin ''2024-01-01T00:00:12.000Z'' 7
     (snd (startPipeline (start_env_at 5 (Resolved ''stream-1'')) (Some 7) audio_options
        new_worker))) = Some ''session_5'' \<and>
   map_option entries (state (snd (stopPipeline_begin ''2024-01-01T00:00:12.000Z'' 7
     (snd (startPipeline (start_env_at 5 (Resolved ''stream-1'')) (Some 7) audio_options
        new_worker)))) 7) = Some [] \<and>
   drop 3 (effects (sendToBackend (chunk_env_at 6 2) (SttJson speech) ''abcde'' (Some 7)
     (snd (stopPipeline_begin ''2024-01-01T00:00:12.000Z'' 7
       (snd (startPipeline (start_env_at 5 (Resolved ''stream-1'')) (Some 7) audio_options
          new_worker)))))) =
     [RuntimeSend (STOP_AUDIO 7),
      SaveSession \<lparr>sd_session_id = ''session_5'', sd_start_time = ''2024-01-01T00:00:10.000Z'',
         sd_entries = [], sd_last_updated = ''2024-01-01T00:00:12.000Z''\<rparr> ''session_5'' True,
      SpeechToText ''abcde'',
      SaveSession \<lparr>sd_session_id = ''session_5'', sd_start_time = ''2024-01-01T00:00:10.000Z'',
         sd_entries = [subtitle_entry (chunk_env_at 6 2) speech],
         sd_last_updated = ''2024-01-01T00:00:11.000Z''\<rparr> ''session_5'' False,
      TabSend 7 (AUDIO_SUBTITLE speech)] \<and>
   map_option entries (state (sendToBackend (chunk_env_at 6 2) (SttJson speech) ''abcde'' (Some 7)
     (snd (stopPipeline_begin ''2024-01-01T00:00:12.000Z'' 7
       (snd (startPipeline (start_env_at 5 (Resolved ''stream-1'')) (Some 7) audio_options
          new_worker))))) 7) = Some [subtitle_entry (chunk_env_at 6 2) speech] \<and>
   entry_id (subtitle_entry (chunk_env_at 6 2) speech) = ''sub_6_2'' \<and>
   drop 3 (effects (stt_answered (chunk_env_at 6 2) (SttJson speech) 7
     (snd (stopPipeline_finish 7 (Some ''session_5'')
       (snd (sendToBackend_request ''abcde'' (Some 7)
         (snd (stopPipeline_begin ''2024-01-01T00:00:12.000Z'' 7
           (snd (startPipeline (start_env_at 5 (Resolved ''stream-1'')) (Some 7) audio_options
              new_worker)))))))))) =
     [RuntimeSend (STOP_AUDIO 7),
      SaveSession \<lparr>sd_session_id = ''session_5'', sd_start_time = ''2024-01-01T00:00:10.000Z'',
         sd_entries = [], sd_last_updated = ''2024-01-01T00:00:12.000Z''\<rparr> ''session_5'' True,
      SpeechToText ''abcde'',
      TabSend 7 PIPELINE_STOPPED]"
proof -
  let ?w1 = "snd (startPipeline (start_env_at 5 (Resolved ''stream-1'')) (Some 7) audio_options
        new_worker)"
  have w1: "?w1 =
     \<lparr>state = [7 \<mapsto> fresh_state (start_env_at 5 (Resolved ''stream-1'')) 7 audio_options],
      effects =
        [RuntimeSend (START_AUDIO 7 ''stream-1''),
         TabSend 7 (PIPELINE_STARTED (normalized_options audio_options)),
         SaveSession \<lparr>sd_session_id = ''session_5'',
            sd_start_time = ''2024-01-01T00:00:10.000Z'', sd_entries = [],
            sd_last_updated = ''2024-01-01T00:00:10.000Z''\<rparr> ''session_5'' False]\<rparr>"
    by (simp add: worker_eval)
  have f: "sessionId (fresh_state (start_env_at 5 (Resolved ''stream-1'')) 7 audio_options) =
      ''session_5''"
    "startTime (fresh_state (start_env_at 5 (Resolved ''stream-1'')) 7 audio_options) =
      ''2024-01-01T00:00:10.000Z''"
    "entries (fresh_state (start_env_at 5 (Resolved ''stream-1'')) 7 audio_options) = []"
    by (simp_all add: fresh_state_def start_env_at_def show_small)
  have o: "sent (offscreen_run recording_offscreen
       [DataAvailable ''de'', RecorderStopped, StopAudio]) = []"
    "isStopping (offscreen_run recording_offscreen
       [DataAvailable ''de'', RecorderStopped, StopAudio])"
    "sent (offscreen_run recording_offscreen
       [DataAvailable ''de'', RecorderStopped, StopAudio, Base64Ready]) =
       [AUDIO_CHUNK ''abcde'' (Some 7)]"
    by (simp_all add: recording_offscreen_fields) (simp_all add: offscreen_eval)
  have i: "entry_id (subtitle_entry (chunk_env_at 6 2) speech) = ''sub_6_2''"
    by code_simp
  have t: "truthy (stt_original_text speech)" "chunk_iso (chunk_env_at 6 2) = ''2024-01-01T00:00:11.000Z''"
    by (simp_all add: speech_def truthy_def chunk_env_at_def)
  show ?thesis
    unfolding w1
    by (simp add: o i t f stopPipeline_begin_def stopPipeline_finish_def sendToBackend_def
        sendToBackend_request_def stt_answered_def autoSaveToBackend_def emit_def Let_def)
qed

subsection \<open>The keyframe sweep\<close>



lemma sweep_step_paused: "paused (fst (sweep_step answers time acc)) = paused (fst acc)"
  by (cases acc) (simp add: sweep_step_def split: step_outcome.splits)

lemma sweep_finite:
  "\<exists>r. sweep answers (Finite x) time acc = Some r"
proof (induction "nat \<lceil>x\<rceil> - time" arbitrary: time acc rule: less_induct)
  case less
  show ?case
  proof (cases "real time < x")
    case True
    then have "time < nat \<lceil>x\<rceil>" by linarith
    then have "nat \<lceil>x\<rceil> - (time + 3) < nat \<lceil>x\<rceil> - time" by simp
    from less [OF this] obtain r where
      "sweep answers (Finite x) (time + 3) (sweep_step answers time acc) = Some r" by blast
    with True show ?thesis
      by (subst sweep.simps) (simp add: time_before_def)
  next
    case False
    then show ?thesis by (subst sweep.simps) (simp add: time_before_def)
  qed
qed


lemma sweep_paused:
  assumes "sweep answers d time acc = Some r"
  shows "paused (fst r) = paused (fst acc)"
proof (rule sweep.raw_induct [where P = "\<lambda>a d t acc r. paused (fst r) = paused (fst acc)",
      OF _ assms])
  fix sweep' a d' t acc' r'
  assume ih: "\<And>a d t acc r. sweep' a d t acc = Some r \<Longrightarrow> paused (fst r) = paused (fst acc)"
    and body: "(if time_before t d' then sweep' a d' (t + 3) (sweep_step a t acc')
                else Some acc') = Some r'"
  show "paused (fst r') = paused (fst acc')"
  proof (cases "time_before t d'")
    case True
    with body have "sweep' a d' (t + 3) (sweep_step a t acc') = Some r'" by simp
    from ih [OF this] show ?thesis by (simp add: sweep_step_paused)
  next
    case False
    with body show ?thesis by simp
  qed
qed

lemma sweep_live_stream: "sweep answers Infinite time acc = None"
proof -
  have "d \<noteq> Infinite" if s: "sweep answers d time acc = Some r" for d r
  proof (rule sweep.raw_induct [where P = "\<lambda>a d t acc r. d \<noteq> Infinite", OF _ s])
    fix sweep' a d' t acc' r'
    assume ih: "\<And>a d t acc r. sweep' a d t acc = Some r \<Longrightarrow> d \<noteq> Infinite"
      and body: "(if time_before t d' then sweep' a d' (t + 3) (sweep_step a t acc')
                  else Some acc') = Some r'"
    show "d' \<noteq> Infinite"
    proof
      assume inf: "d' = Infinite"
      with body have "sweep' a d' (t + 3) (sweep_step a t acc') = Some r'"
        by (simp add: time_before_def)
      from ih [OF this] inf show False by simp
    qed
  qed
  then show ?thesis by (cases "sweep answers Infinite time acc") auto
qed

text \<open>
  Claim C9.  Whenever \<open>handleExtractKeyframes\<close> returns, the playback position and
  the paused flag of the video are what they were before, whatever happened at the
  single steps (a seek that throws, no frame, a save that fails or is refused); a page
  without video is left without one.  The handler returns for every video whose
  duration is not infinite.
\<close>

theorem sweep_restores_playback:
  "(handleExtractKeyframes answers found = Some (found', keyframes) \<longrightarrow>
      map_option currentTime found' = map_option currentTime found \<and>
      map_option paused found' = map_option paused found) \<and>
   ((\<forall>v. found = Some v \<longrightarrow> video_duration v \<noteq> Infinite) \<longrightarrow>
      (\<exists>r. handleExtractKeyframes answers found = Some r))"
proof -
  have restored: "map_option currentTime found' = map_option currentTime found \<and>
      map_option paused found' = map_option paused found"
    if h: "handleExtractKeyframes answers found = Some (found', keyframes)"
  proof (cases found)
    case None
    with h show ?thesis by (simp add: handleExtractKeyframes_def)
  next
    case (Some v)
    show ?thesis
    proof (cases "duration_falsy (video_duration v)")
      case True
      with h Some show ?thesis by (auto simp: handleExtractKeyframes_def)
    next
      case False
      let ?v1 = "if \<not> paused v then v\<lparr>paused := True\<rparr> else v"
      from h Some False obtain v2 ks where
        sw: "sweep answers (video_duration v) 0 (?v1, []) = Some (v2, ks)"
        and f: "found' = Some (if \<not> paused v
                 then v2\<lparr>currentTime := currentTime v, paused := False\<rparr>
                 else v2\<lparr>currentTime := currentTime v\<rparr>)"
        by (auto simp: handleExtractKeyframes_def Let_def split: option.splits if_splits)
      from sweep_paused [OF sw] have "paused v2 = paused ?v1" by simp
      with f Some show ?thesis by auto
    qed
  qed
  have returns: "\<exists>r. handleExtractKeyframes answers found = Some r"
    if fin: "\<forall>v. found = Some v \<longrightarrow> video_duration v \<noteq> Infinite"
  proof (cases found)
    case None
    then show ?thesis by (simp add: handleExtractKeyframes_def)
  next
    case (Some v)
    show ?thesis
    proof (cases "video_duration v")
      case NaN
      with Some show ?thesis by (simp add: handleExtractKeyframes_def duration_falsy_def)
    next
      case (Finite x)
      obtain r where "sweep answers (Finite x) 0
          (if \<not> paused v then v\<lparr>paused := True\<rparr> else v, []) = Some r"
        using sweep_finite by blast
      with Some Finite show ?thesis
        by (cases r) (auto simp: handleExtractKeyframes_def Let_def)
    next
      case Infinite
      with fin Some show ?thesis by simp
    qed
  qed
  from restored returns show ?thesis by blast
qed

theorem sweep_restores_playback_witness:
  "handleExtractKeyframes sample_answers (Some sample_video) =
     Some (Some sample_video,
       [\<lparr>kf_image_id = ''keyframe_5_3'', kf_image_path = ''sessions/images/k.jpg'',
         kf_timestamp = 3\<rparr>]) \<and>
   video_duration sample_video \<noteq> Infinite \<and>
   (\<exists>found' keyframes.
      handleExtractKeyframes sample_answers (Some sample_video) = Some (found', keyframes) \<and>
      map_option currentTime found' = Some (9 / 2) \<and> map_option paused found' = Some False)"
proof -
  have d: "video_duration sample_video \<noteq> Infinite" by (simp add: sample_video_def)
  have v: "currentTime sample_video = 9 / 2" "paused sample_video = False"
    by (simp_all add: sample_video_def)
  have e: "handleExtractKeyframes sample_answers (Some sample_video) =
     Some (Some sample_video,
       [\<lparr>kf_image_id = ''keyframe_5_3'', kf_image_path = ''sessions/images/k.jpg'',
         kf_timestamp = 3\<rparr>])"
    apply (simp add: handleExtractKeyframes_def sample_video_def duration_falsy_def Let_def)
    apply (simp add: sweep.simps time_before_def sweep_step_def sample_answers_def show_small)
    done
  from d have fin: "\<forall>v. Some sample_video = Some v \<longrightarrow> video_duration v \<noteq> Infinite"
    by simp
  from sweep_restores_playback [of sample_answers "Some sample_video" None "[]"] fin
  obtain r where r: "handleExtractKeyframes sample_answers (Some sample_video) = Some r"
    by blast
  obtain found' keyframes where p: "r = (found', keyframes)" by (cases r)
  from r p sweep_restores_playback [of sample_answers "Some sample_video" found' keyframes]
  have "map_option currentTime found' = Some (9 / 2)" "map_option paused found' = Some False"
    by (simp_all add: v)
  with r p d e show ?thesis by blast
qed

end
